theory Spec2Isabelle
  imports Main "HOL-Library.Sublist"
begin

section \<open>JavaScript values\<close>

text \<open>
  The completion client and the HTTP endpoints handle values of TypeScript type \<open>any\<close>:
  the provider's response envelope and the parsed request body. They are modelled as
  JSON-like values. Numbers are integers (token counts and millisecond timestamps);
  \<open>NaN\<close> and fractional numbers are outside the model. An array is an object whose keys
  are its indices. Strings are lists of 8-bit characters.
\<close>

datatype js = Undefined | Null | Bool bool | Num int | Str string | Obj "(string \<times> js) list"

text \<open>JavaScript truthiness, as used by \<open>if (v)\<close>, \<open>!v\<close>, \<open>a || b\<close> and \<open>c ? a : b\<close>.\<close>

fun truthy :: "js \<Rightarrow> bool" where
  "truthy Undefined = False"
| "truthy Null = False"
| "truthy (Bool b) = b"
| "truthy (Num n) = (n \<noteq> 0)"
| "truthy (Str s) = (s \<noteq> [])"
| "truthy (Obj kvs) = True"

text \<open>\<open>a || b\<close>: the left operand when it is truthy, else the right one.\<close>

definition js_or :: "js \<Rightarrow> js \<Rightarrow> js" where
  "js_or a b = (if truthy a then a else b)"

text \<open>
  Property read \<open>v?.k\<close>: \<open>undefined\<close> on \<open>null\<close> and \<open>undefined\<close>, the own property
  on an object, and \<open>undefined\<close> on a primitive (none of the property names read by the
  program is a member of a primitive's prototype). The plain read \<open>v.k\<close> agrees with it
  wherever \<open>v\<close> is known to be neither \<open>null\<close> nor \<open>undefined\<close>.
\<close>

fun js_get :: "js \<Rightarrow> string \<Rightarrow> js" where
  "js_get (Obj kvs) k = (case map_of kvs k of Some v \<Rightarrow> v | None \<Rightarrow> Undefined)"
| "js_get v k = Undefined"

fun nullish :: "js \<Rightarrow> bool" where
  "nullish Undefined = True"
| "nullish Null = True"
| "nullish v = False"

text \<open>\<open>typeof v === 'object' && v\<close>: objects only (\<open>null\<close> is falsy).\<close>

fun is_object :: "js \<Rightarrow> bool" where
  "is_object (Obj kvs) = True"
| "is_object v = False"

text \<open>\<open>Object.entries(v)\<close> for a value that passed \<open>v && typeof v === 'object'\<close>.\<close>

fun entries :: "js \<Rightarrow> (string \<times> js) list" where
  "entries (Obj kvs) = kvs"
| "entries v = []"

text \<open>
  \<open>String.prototype.toLowerCase\<close> on the ASCII range: \<open>A\<close>..\<open>Z\<close> become \<open>a\<close>..\<open>z\<close>, every
  other character is kept.
\<close>

definition lower_char :: "char \<Rightarrow> char" where
  "lower_char c =
     (if 65 \<le> (of_char c :: nat) \<and> (of_char c :: nat) \<le> 90
      then char_of ((of_char c :: nat) + 32) else c)"

definition toLowerCase :: "string \<Rightarrow> string" where
  "toLowerCase s = map lower_char s"

text \<open>\<open>s.includes(k)\<close>: \<open>k\<close> occurs in \<open>s\<close> as a contiguous substring.\<close>

definition js_includes :: "string \<Rightarrow> string \<Rightarrow> bool" where
  "js_includes s k = sublist k s"

section \<open>Completion client: token-usage extraction\<close>

record tokenUsage =
  inputTokens :: js
  outputTokens :: js
  totalTokens :: js

definition zeroUsage :: tokenUsage where
  "zeroUsage = \<lparr>inputTokens = Num 0, outputTokens = Num 0, totalTokens = Num 0\<rparr>"

text \<open>
  The last-resort loop of \<open>extractTokenUsage\<close>: the first top-level entry, in entry
  order, whose lower-cased key contains \<open>token\<close> and whose value is an object.
\<close>

fun scanTokenData :: "(string \<times> js) list \<Rightarrow> tokenUsage option" where
  "scanTokenData [] = None"
| "scanTokenData ((key, v) # rest) =
     (if js_includes (toLowerCase key) ''token'' \<and> is_object v
      then Some \<lparr>inputTokens = js_or (js_get v ''prompt_tokens'')
                     (js_or (js_get v ''inputTokens'') (js_or (js_get v ''input_tokens'') (Num 0))),
                 outputTokens = js_or (js_get v ''completion_tokens'')
                     (js_or (js_get v ''outputTokens'') (js_or (js_get v ''output_tokens'') (Num 0))),
                 totalTokens = js_or (js_get v ''total_tokens'')
                     (js_or (js_get v ''totalTokens'') (Num 0))\<rparr>
      else scanTokenData rest)"

text \<open>
  \<open>extractTokenUsage\<close> of the completion client (the version whose
  \<open>generateCompletionWithTokens\<close> calls it), branch by branch in source order:
  \<open>response_metadata.usage_metadata\<close>, \<open>response_metadata.tokenUsage\<close>,
  \<open>llmOutput.tokenUsage\<close>, the direct \<open>usage\<close> object, the scan, and zeros.
\<close>

definition extractTokenUsage :: "js \<Rightarrow> tokenUsage" where
  "extractTokenUsage response =
    (let responseMetadata = js_get response ''response_metadata'';
         usageMetadata = js_get responseMetadata ''usage_metadata'';
         metaTokenUsage = js_get responseMetadata ''tokenUsage'';
         llmOutput = js_get response ''llmOutput'';
         llmTokenUsage = js_get llmOutput ''tokenUsage'';
         directUsage = js_get response ''usage''
     in
     if truthy responseMetadata \<and> truthy usageMetadata then
       \<lparr>inputTokens = js_or (js_get usageMetadata ''input_tokens'') (Num 0),
        outputTokens = js_or (js_get usageMetadata ''output_tokens'') (Num 0),
        totalTokens = js_or (js_get usageMetadata ''total_tokens'') (Num 0)\<rparr>
     else if truthy responseMetadata \<and> truthy metaTokenUsage then
       \<lparr>inputTokens = js_or (js_get metaTokenUsage ''promptTokens'')
                       (js_or (js_get metaTokenUsage ''inputTokens'') (Num 0)),
        outputTokens = js_or (js_get metaTokenUsage ''completionTokens'')
                       (js_or (js_get metaTokenUsage ''outputTokens'') (Num 0)),
        totalTokens = js_or (js_get metaTokenUsage ''totalTokens'') (Num 0)\<rparr>
     else if truthy llmOutput \<and> truthy llmTokenUsage then
       \<lparr>inputTokens = js_or (js_get llmTokenUsage ''promptTokens'')
                       (js_or (js_get llmTokenUsage ''inputTokens'') (Num 0)),
        outputTokens = js_or (js_get llmTokenUsage ''completionTokens'')
                       (js_or (js_get llmTokenUsage ''outputTokens'') (Num 0)),
        totalTokens = js_or (js_get llmTokenUsage ''totalTokens'') (Num 0)\<rparr>
     else if truthy directUsage then
       \<lparr>inputTokens = js_or (js_get directUsage ''prompt_tokens'')
                       (js_or (js_get directUsage ''input_tokens'') (Num 0)),
        outputTokens = js_or (js_get directUsage ''completion_tokens'')
                       (js_or (js_get directUsage ''output_tokens'') (Num 0)),
        totalTokens = js_or (js_get directUsage ''total_tokens'') (Num 0)\<rparr>
     else if truthy response \<and> is_object response then
       (case scanTokenData (entries response) of
          Some u \<Rightarrow> u
        | None \<Rightarrow> zeroUsage)
     else zeroUsage)"

text \<open>
  The sources of usage data, each as a probe of the response on its own: the nested
  \<open>response_metadata.usage_metadata\<close> and \<open>response_metadata.tokenUsage\<close>, the
  callback-style \<open>llmOutput.tokenUsage\<close>, the direct \<open>usage\<close> object, and the scan of
  the top-level fields.
\<close>

definition probe_usage_metadata :: "js \<Rightarrow> tokenUsage option" where
  "probe_usage_metadata response =
    (let responseMetadata = js_get response ''response_metadata'';
         u = js_get responseMetadata ''usage_metadata''
     in if truthy responseMetadata \<and> truthy u
        then Some \<lparr>inputTokens = js_or (js_get u ''input_tokens'') (Num 0),
                   outputTokens = js_or (js_get u ''output_tokens'') (Num 0),
                   totalTokens = js_or (js_get u ''total_tokens'') (Num 0)\<rparr>
        else None)"

definition camelUsage :: "js \<Rightarrow> tokenUsage" where
  "camelUsage u =
     \<lparr>inputTokens = js_or (js_get u ''promptTokens'') (js_or (js_get u ''inputTokens'') (Num 0)),
      outputTokens = js_or (js_get u ''completionTokens'') (js_or (js_get u ''outputTokens'') (Num 0)),
      totalTokens = js_or (js_get u ''totalTokens'') (Num 0)\<rparr>"

definition probe_metadata_tokenUsage :: "js \<Rightarrow> tokenUsage option" where
  "probe_metadata_tokenUsage response =
    (let responseMetadata = js_get response ''response_metadata'';
         u = js_get responseMetadata ''tokenUsage''
     in if truthy responseMetadata \<and> truthy u then Some (camelUsage u) else None)"

definition probe_llmOutput :: "js \<Rightarrow> tokenUsage option" where
  "probe_llmOutput response =
    (let llmOutput = js_get response ''llmOutput'';
         u = js_get llmOutput ''tokenUsage''
     in if truthy llmOutput \<and> truthy u then Some (camelUsage u) else None)"

definition probe_direct :: "js \<Rightarrow> tokenUsage option" where
  "probe_direct response =
    (let u = js_get response ''usage''
     in if truthy u
        then Some \<lparr>inputTokens = js_or (js_get u ''prompt_tokens'') (js_or (js_get u ''input_tokens'') (Num 0)),
                   outputTokens = js_or (js_get u ''completion_tokens'') (js_or (js_get u ''output_tokens'') (Num 0)),
                   totalTokens = js_or (js_get u ''total_tokens'') (Num 0)\<rparr>
        else None)"

definition probe_scan :: "js \<Rightarrow> tokenUsage option" where
  "probe_scan response =
    (if truthy response \<and> is_object response then scanTokenData (entries response) else None)"

text \<open>The first probe of a list that yields usage data decides; zeros when none does.\<close>

fun first_probe :: "(js \<Rightarrow> tokenUsage option) list \<Rightarrow> js \<Rightarrow> tokenUsage" where
  "first_probe [] response = zeroUsage"
| "first_probe (p # ps) response =
     (case p response of Some u \<Rightarrow> u | None \<Rightarrow> first_probe ps response)"

text \<open>
  The order the specification states: the direct usage object, the nested metadata, the
  callback-style field, the scan.
\<close>

definition stated_probe_order :: "(js \<Rightarrow> tokenUsage option) list" where
  "stated_probe_order =
     [probe_direct, probe_usage_metadata, probe_metadata_tokenUsage, probe_llmOutput, probe_scan]"

text \<open>The order of the branches of \<open>extractTokenUsage\<close>.\<close>

definition source_probe_order :: "(js \<Rightarrow> tokenUsage option) list" where
  "source_probe_order =
     [probe_usage_metadata, probe_metadata_tokenUsage, probe_llmOutput, probe_direct, probe_scan]"

text \<open>
  A response with a direct usage object (1, 2, 3) and a nested
  \<open>response_metadata.usage_metadata\<close> (12, 34, 46).
\<close>

definition response_both :: js where
  "response_both =
     Obj [(''content'', Str ''hi''),
          (''usage'', Obj [(''prompt_tokens'', Num 1), (''completion_tokens'', Num 2),
                           (''total_tokens'', Num 3)]),
          (''response_metadata'',
             Obj [(''usage_metadata'',
                     Obj [(''input_tokens'', Num 12), (''output_tokens'', Num 34),
                          (''total_tokens'', Num 46)])])]"

text \<open>A response with usage only at \<open>response_metadata.usage_metadata\<close>, and one with none.\<close>

definition response_nested :: js where
  "response_nested =
     Obj [(''content'', Str ''hi''),
          (''response_metadata'',
             Obj [(''usage_metadata'',
                     Obj [(''input_tokens'', Num 12), (''output_tokens'', Num 34),
                          (''total_tokens'', Num 46)])])]"

definition response_plain :: js where
  "response_plain = Obj [(''content'', Str ''hi''), (''id'', Str ''r1'')]"

section \<open>Completion client: \<open>generateCompletionWithTokens\<close>\<close>

text \<open>
  A thrown value is an \<open>Error\<close> object: a message, when present, is a string, and the
  provider's HTTP errors carry a numeric \<open>status\<close>.
\<close>

record js_error =
  message :: "string option"
  status :: "int option"

definition Error :: "string \<Rightarrow> js_error" where
  "Error m = \<lparr>message = Some m, status = None\<rparr>"

text \<open>
  The \<open>TypeError\<close> raised by reading property \<open>prop\<close> of \<open>null\<close> or \<open>undefined\<close>
  (the wording of the message is the engine's; it has no \<open>status\<close>).
\<close>

definition TypeError :: "string \<Rightarrow> js_error" where
  "TypeError prop = Error (''Cannot read properties of undefined (reading '' @ prop @ '')'')"

text \<open>
  The earlier version of \<open>extractTokenUsage\<close> (its \<open>generateCompletionWithTokens\<close> reads
  the usage of the direct client and never calls it). It logs
  \<open>JSON.stringify(response, null, 2).substring(0, 500)\<close> first, which throws on
  \<open>undefined\<close>. JavaScript's \<open>+\<close> on arbitrary values is a parameter \<open>js_plus\<close>.
\<close>

fun scanTokenData_earlier :: "(string \<times> js) list \<Rightarrow> tokenUsage option" where
  "scanTokenData_earlier [] = None"
| "scanTokenData_earlier ((key, v) # rest) =
     (if js_includes (toLowerCase key) ''token'' \<and> is_object v
      then Some \<lparr>inputTokens = js_or (js_or (js_get v ''prompt_tokens'') (js_get v ''input_tokens'')) (Num 0),
                 outputTokens = js_or (js_or (js_get v ''completion_tokens'') (js_get v ''output_tokens'')) (Num 0),
                 totalTokens = js_or (js_get v ''total_tokens'') (Num 0)\<rparr>
      else scanTokenData_earlier rest)"

definition extractTokenUsage_earlier :: "(js \<Rightarrow> js \<Rightarrow> js) \<Rightarrow> js \<Rightarrow> js_error + tokenUsage" where
  "extractTokenUsage_earlier js_plus response =
    (if response = Undefined then Inl (TypeError ''substring'')
     else
       let usage = js_or (js_or (js_or (js_get response ''usage'')
                                       (js_get (js_get response ''response_metadata'') ''usage''))
                                (js_get (js_get response ''llmOutput'') ''tokenUsage''))
                         (js_get (js_get response ''llmOutput'') ''usage'');
           responseMetadata = js_get response ''response_metadata'';
           metaUsage = js_or (js_get responseMetadata ''usage'') (js_get responseMetadata ''tokenUsage'')
       in
       if truthy usage then
         Inr \<lparr>inputTokens = js_or (js_or (js_get usage ''prompt_tokens'') (js_get usage ''input_tokens'')) (Num 0),
              outputTokens = js_or (js_or (js_get usage ''completion_tokens'') (js_get usage ''output_tokens'')) (Num 0),
              totalTokens = js_or (js_or (js_get usage ''total_tokens'')
                                         (js_plus (js_get usage ''prompt_tokens'') (js_get usage ''completion_tokens'')))
                                  (Num 0)\<rparr>
       else if truthy responseMetadata \<and> truthy metaUsage then
         Inr \<lparr>inputTokens = js_or (js_or (js_get metaUsage ''prompt_tokens'') (js_get metaUsage ''input_tokens'')) (Num 0),
              outputTokens = js_or (js_or (js_get metaUsage ''completion_tokens'') (js_get metaUsage ''output_tokens'')) (Num 0),
              totalTokens = js_or (js_get metaUsage ''total_tokens'') (Num 0)\<rparr>
       else if truthy response \<and> is_object response then
         (case scanTokenData_earlier (entries response) of
            Some u \<Rightarrow> Inr u
          | None \<Rightarrow> Inr zeroUsage)
       else Inr zeroUsage)"

text \<open>An outbound request to the language-model provider, with the human message it carries.\<close>

datatype outbound =
    ModelInvoke string
  | OpenAICreate string string
  | ChainStream string

text \<open>
  Everything outside the program: the process environment, the readings of
  \<open>Date.now()\<close> (the \<open>n\<close>-th reading is \<open>clock n\<close>), and what the provider answers:
  \<open>model.invoke\<close> and \<open>openaiClient.chat.completions.create\<close> either throw or resolve
  to a response, \<open>simpleChain.stream\<close> yields chunks and may then throw.
\<close>

record world =
  OPENAI_API_KEY :: "string option"
  AI_MODEL :: "string option"
  clock :: "nat \<Rightarrow> int"
  model_invoke :: "string \<Rightarrow> js_error + js"
  openai_create :: "string \<Rightarrow> string \<Rightarrow> js_error + js"
  chain_stream :: "string \<Rightarrow> string list \<times> js_error option"

text \<open>The effects of a request: clock readings taken so far and outbound calls made, in order.\<close>

record effects =
  ticks :: nat
  calls :: "outbound list"

definition dateNow :: "world \<Rightarrow> effects \<Rightarrow> int \<times> effects" where
  "dateNow w s = (clock w (ticks s), s\<lparr>ticks := Suc (ticks s)\<rparr>)"

definition outboundCall :: "outbound \<Rightarrow> effects \<Rightarrow> effects" where
  "outboundCall c s = s\<lparr>calls := calls s @ [c]\<rparr>"

text \<open>\<open>process.env.X || dflt\<close> and \<open>!process.env.X\<close>: unset and empty are both falsy.\<close>

definition env_or :: "string option \<Rightarrow> string \<Rightarrow> string" where
  "env_or v dflt = (case v of None \<Rightarrow> dflt | Some x \<Rightarrow> if x = [] then dflt else x)"

definition env_set :: "string option \<Rightarrow> bool" where
  "env_set v = (case v of None \<Rightarrow> False | Some x \<Rightarrow> x \<noteq> [])"

text \<open>The result object of \<open>generateCompletionWithTokens\<close> (fields prefixed \<open>c_\<close>).\<close>

record completion =
  c_text :: js
  c_tokensUsed :: js
  c_inputTokens :: js
  c_outputTokens :: js
  c_responseTime :: int
  c_finishReason :: js

text \<open>\<open>error?.message?.includes(k)\<close> and \<open>error?.status === n\<close>.\<close>

definition message_includes :: "js_error \<Rightarrow> string \<Rightarrow> bool" where
  "message_includes e k = (case message e of None \<Rightarrow> False | Some m \<Rightarrow> js_includes m k)"

definition status_is :: "js_error \<Rightarrow> int \<Rightarrow> bool" where
  "status_is e n = (status e = Some n)"

text \<open>The \<open>if\<close>/\<open>else if\<close> chain of the \<open>catch\<close> block that selects \<open>errorMessage\<close>.\<close>

definition errorMessage :: "js_error \<Rightarrow> string" where
  "errorMessage e =
    (if message_includes e ''API key'' then
       ''Authentication error: Please check your OpenAI API key configuration.''
     else if message_includes e ''model'' then
       ''Model error: The specified AI model is not available or invalid.''
     else if message_includes e ''rate limit'' then
       ''Rate limit exceeded: Please wait a moment before trying again.''
     else if message_includes e ''timeout'' then
       ''Request timeout: The AI service took too long to respond.''
     else if status_is e 429 then
       ''Too many requests: Please try again in a few moments.''
     else if status_is e 401 then
       ''Authentication failed: Please check your API key.''
     else ''Sorry, I encountered an error processing your request.'')"

text \<open>
  The inner \<open>try\<close> of the fallback: the direct call's usage, or nothing when the call
  throws or resolves to \<open>null\<close>/\<open>undefined\<close> (reading \<open>.usage\<close> then throws inside the
  inner \<open>try\<close>, whose \<open>catch\<close> only logs).
\<close>

definition fallbackTokens :: "js_error + js \<Rightarrow> tokenUsage option" where
  "fallbackTokens outcome =
    (case outcome of
       Inl fallbackError \<Rightarrow> None
     | Inr openaiResponse \<Rightarrow>
         if nullish openaiResponse then None
         else
           let usage = js_get openaiResponse ''usage'' in
           Some \<lparr>inputTokens = js_or (js_get usage ''prompt_tokens'') (Num 0),
                 outputTokens = js_or (js_get usage ''completion_tokens'') (Num 0),
                 totalTokens = js_or (js_get usage ''total_tokens'') (Num 0)\<rparr>)"

text \<open>
  The body of the outer \<open>try\<close>, given \<open>startTime\<close>. \<open>Inl\<close> is a value thrown inside it:
  the configuration error, the error of \<open>model.invoke\<close>, or the \<open>TypeError\<close> of reading
  \<open>.content\<close> of a \<open>null\<close>/\<open>undefined\<close> response or \<open>.length\<close> of such a text.
\<close>

definition generateCompletionWithTokens_try ::
  "world \<Rightarrow> string \<Rightarrow> int \<Rightarrow> effects \<Rightarrow> (js_error + completion) \<times> effects" where
  "generateCompletionWithTokens_try w input startTime s =
    (if \<not> env_set (OPENAI_API_KEY w) then
       (Inl (Error ''OpenAI API key is not configured. Please set OPENAI_API_KEY environment variable.''), s)
     else
       let s1 = outboundCall (ModelInvoke input) s in
       case model_invoke w input of
         Inl e \<Rightarrow> (Inl e, s1)
       | Inr modelResponse \<Rightarrow>
           let (now1, s2) = dateNow w s1;
               responseTime = now1 - startTime
           in
           if nullish modelResponse then (Inl (TypeError ''content''), s2)
           else
             let txt = js_get modelResponse ''content'';
                 tokenUsage = extractTokenUsage modelResponse;
                 finishReason = js_or (js_get (js_get modelResponse ''response_metadata'') ''finish_reason'')
                                      (Str ''stop'')
             in
             if nullish txt then (Inl (TypeError ''length''), s2)
             else if totalTokens tokenUsage = Num 0 then
               (let modelName = env_or (AI_MODEL w) ''gpt-5-2025-08-07'';
                    s3 = outboundCall (OpenAICreate modelName input) s2
                in
                case fallbackTokens (openai_create w modelName input) of
                  Some fb \<Rightarrow>
                    (Inr \<lparr>c_text = txt, c_tokensUsed = totalTokens fb,
                          c_inputTokens = inputTokens fb, c_outputTokens = outputTokens fb,
                          c_responseTime = responseTime, c_finishReason = finishReason\<rparr>, s3)
                | None \<Rightarrow>
                    (Inr \<lparr>c_text = txt, c_tokensUsed = totalTokens tokenUsage,
                          c_inputTokens = inputTokens tokenUsage, c_outputTokens = outputTokens tokenUsage,
                          c_responseTime = responseTime, c_finishReason = finishReason\<rparr>, s3))
             else
               (Inr \<lparr>c_text = txt, c_tokensUsed = totalTokens tokenUsage,
                     c_inputTokens = inputTokens tokenUsage, c_outputTokens = outputTokens tokenUsage,
                     c_responseTime = responseTime, c_finishReason = finishReason\<rparr>, s2))"

text \<open>The \<open>catch\<close> block: a second clock reading, the classified message, zeroed counts.\<close>

definition generateCompletionWithTokens_catch ::
  "world \<Rightarrow> js_error \<Rightarrow> int \<Rightarrow> effects \<Rightarrow> (js_error + completion) \<times> effects" where
  "generateCompletionWithTokens_catch w e startTime s =
    (let (now2, s') = dateNow w s;
         responseTime = now2 - startTime
     in (Inr \<lparr>c_text = Str (errorMessage e), c_tokensUsed = Num 0,
               c_inputTokens = Num 0, c_outputTokens = Num 0,
               c_responseTime = responseTime, c_finishReason = Str ''error''\<rparr>, s'))"

definition generateCompletionWithTokens ::
  "world \<Rightarrow> string \<Rightarrow> effects \<Rightarrow> (js_error + completion) \<times> effects" where
  "generateCompletionWithTokens w input s =
    (let (startTime, s0) = dateNow w s in
     case generateCompletionWithTokens_try w input startTime s0 of
       (Inr r, s1) \<Rightarrow> (Inr r, s1)
     | (Inl e, s1) \<Rightarrow> generateCompletionWithTokens_catch w e startTime s1)"

section \<open>HTTP endpoints\<close>

text \<open>A JSON response (status and the object given to \<open>JSON.stringify\<close>) or a text stream.\<close>

datatype stream_end = Closed | Errored js_error

datatype response =
    Json nat js
  | Plain nat string
  | Stream "string list" stream_end "(string \<times> string) list"

text \<open>\<open>typeof body?.k === "string" ? body.k : ""\<close>.\<close>

definition string_field :: "js \<Rightarrow> string \<Rightarrow> string" where
  "string_field body k = (case js_get body k of Str x \<Rightarrow> x | _ \<Rightarrow> [])"

text \<open>\<open>conversationId ? `[Conversation: ${conversationId}]\n${input}` : input\<close>.\<close>

definition enhancedInput :: "string \<Rightarrow> string \<Rightarrow> string" where
  "enhancedInput conversationId input =
    (if conversationId \<noteq> [] then ''[Conversation: '' @ conversationId @ '']'' @ [CHR 0x0A] @ input
     else input)"

text \<open>The synchronous endpoint, \<open>POST /api/ai/chat\<close>.\<close>

definition chatPOST :: "world \<Rightarrow> js \<Rightarrow> effects \<Rightarrow> response \<times> effects" where
  "chatPOST w body s =
    (let input = string_field body ''input'';
         conversationId = string_field body ''conversationId''
     in
     if input = [] then (Json 400 (Obj [(''error'', Str ''Missing input'')]), s)
     else
       case generateCompletionWithTokens w (enhancedInput conversationId input) s of
         (Inr result, s1) \<Rightarrow>
           let (timestamp, s2) = dateNow w s1 in
           (Json 200 (Obj [(''text'', c_text result),
                           (''conversationId'', Str conversationId),
                           (''timestamp'', Num timestamp),
                           (''model'', Str (env_or (AI_MODEL w) ''gpt-4.1-nano-2025-04-14'')),
                           (''tokensUsed'', c_tokensUsed result),
                           (''inputTokens'', c_inputTokens result),
                           (''outputTokens'', c_outputTokens result),
                           (''responseTime'', Num (c_responseTime result)),
                           (''finishReason'', c_finishReason result)]), s2)
       | (Inl e, s1) \<Rightarrow>
           let (timestamp, s2) = dateNow w s1 in
           (Json 500 (Obj [(''error'', Str (case message e of
                                              None \<Rightarrow> ''Error''
                                            | Some m \<Rightarrow> if m = [] then ''Error'' else m)),
                           (''conversationId'', Str conversationId),
                           (''timestamp'', Num timestamp),
                           (''tokensUsed'', Num 0),
                           (''inputTokens'', Num 0),
                           (''outputTokens'', Num 0),
                           (''responseTime'', Num 0),
                           (''finishReason'', Str ''error'')]), s2))"

text \<open>The streaming endpoint, \<open>POST /api/ai/stream\<close>.\<close>

definition streamPOST :: "world \<Rightarrow> js \<Rightarrow> effects \<Rightarrow> response \<times> effects" where
  "streamPOST w body s =
    (let input = string_field body ''input'';
         conversationId = string_field body ''conversationId''
     in
     if input = [] then (Plain 400 ''Missing input'', s)
     else
       let enhanced = enhancedInput conversationId input;
           s1 = outboundCall (ChainStream enhanced) s;
           (chunks, failure) = chain_stream w enhanced
       in (Stream chunks (case failure of None \<Rightarrow> Closed | Some e \<Rightarrow> Errored e)
             [(''Content-Type'', ''text/plain; charset=utf-8''),
              (''Cache-Control'', ''no-cache''),
              (''Transfer-Encoding'', ''chunked''),
              (''X-Conversation-ID'', conversationId)], s1))"

section \<open>Completion client and endpoints: the stated contracts and sample worlds\<close>




text \<open>The human message an outbound call carries.\<close>

fun human_message :: "outbound \<Rightarrow> string" where
  "human_message (ModelInvoke m) = m"
| "human_message (OpenAICreate modelName m) = m"
| "human_message (ChainStream m) = m"

text \<open>
  Sample worlds. In \<open>world_ok\<close> the key is set, \<open>model.invoke\<close> answers without usage
  data and the direct call reports usage; \<open>world_usage\<close> answers with nested usage data;
  \<open>world_nokey\<close> has no API key; in \<open>world_timeout429\<close> the provider answers HTTP 429 with
  a message that mentions a timeout.
\<close>

definition world_ok :: world where
  "world_ok =
    \<lparr>OPENAI_API_KEY = Some ''sk-test'', AI_MODEL = None,
     clock = (\<lambda>n. 1000 + 7 * int n),
     model_invoke = (\<lambda>m. Inr response_plain),
     openai_create = (\<lambda>modelName m. Inr (Obj [(''usage'',
        Obj [(''prompt_tokens'', Num 5), (''completion_tokens'', Num 6), (''total_tokens'', Num 11)])])),
     chain_stream = (\<lambda>m. ([''Hel'', ''lo''], None))\<rparr>"

definition world_usage :: world where
  "world_usage = world_ok\<lparr>model_invoke := (\<lambda>m. Inr response_nested)\<rparr>"

definition world_nokey :: world where
  "world_nokey = world_ok\<lparr>OPENAI_API_KEY := None\<rparr>"

definition world_timeout429 :: world where
  "world_timeout429 =
     world_ok\<lparr>model_invoke := (\<lambda>m. Inl \<lparr>message = Some ''Request timeout'', status = Some 429\<rparr>)\<rparr>"

definition no_effects :: effects where
  "no_effects = \<lparr>ticks = 0, calls = []\<rparr>"









definition body_hi :: js where
  "body_hi = Obj [(''input'', Str ''hi'')]"

definition body_conv :: js where
  "body_conv = Obj [(''input'', Str ''hi''), (''conversationId'', Str ''c1'')]"

text \<open>
  Shorthands for a request to an endpoint: the prompt it builds from the body, and the
  body of the answer of the synchronous endpoint.
\<close>

abbreviation request_prompt :: "js \<Rightarrow> string" where
  "request_prompt body \<equiv>
     enhancedInput (string_field body ''conversationId'') (string_field body ''input'')"


section \<open>Conversation store: titles\<close>

definition upper_char :: "char \<Rightarrow> char" where
  "upper_char c =
     (if 97 \<le> (of_char c :: nat) \<and> (of_char c :: nat) \<le> 122
      then char_of ((of_char c :: nat) - 32) else c)"

text \<open>\<open>k.charAt(0).toUpperCase() + k.slice(1)\<close>.\<close>

fun capitalize :: "string \<Rightarrow> string" where
  "capitalize [] = []"
| "capitalize (c # cs) = upper_char c # cs"

text \<open>\<open>String.prototype.trim\<close> on the ASCII white space (tab, LF, VT, FF, CR, space).\<close>

definition is_space :: "char \<Rightarrow> bool" where
  "is_space c = ((of_char c :: nat) \<in> {9, 10, 11, 12, 13, 32})"

definition js_trim :: "string \<Rightarrow> string" where
  "js_trim s = rev (dropWhile is_space (rev (dropWhile is_space s)))"

text \<open>\<open>s.replace(/[.!?]$/, "")\<close>: one trailing \<open>.\<close>, \<open>!\<close> or \<open>?\<close> is removed.\<close>

definition is_end_punct :: "char \<Rightarrow> bool" where
  "is_end_punct c = (c = CHR ''.'' \<or> c = CHR ''!'' \<or> c = CHR ''?'')"

definition strip_end_punct :: "string \<Rightarrow> string" where
  "strip_end_punct s = (if s \<noteq> [] \<and> is_end_punct (last s) then butlast s else s)"

definition title_keywords :: "string list" where
  "title_keywords = [''help'', ''question'', ''explain'', ''how'', ''what'', ''why'', ''code'',
               ''programming'', ''design'', ''business'', ''writing'', ''analysis'',
               ''research'', ''learning'']"

text \<open>
  The handler of the internal action \<open>generateTitle\<close>. The loop pushes every keyword
  found in the lower-cased prompt onto \<open>foundKeywords\<close>, in the order of \<open>keywords\<close> (here \<open>title_keywords\<close>);
  \<open>foundKeywords[0]\<close> is read only when the list is not empty.
\<close>

definition generateTitle :: "string \<Rightarrow> string" where
  "generateTitle prompt =
    (let msg = toLowerCase prompt;
         foundKeywords = filter (\<lambda>keyword. js_includes msg keyword) title_keywords
     in
     case foundKeywords of
       primaryKeyword # _ \<Rightarrow> capitalize primaryKeyword @ '' Discussion''
     | [] \<Rightarrow>
        if js_includes msg ''create'' \<or> js_includes msg ''build'' \<or> js_includes msg ''make''
        then ''Project Creation''
        else if js_includes msg ''fix'' \<or> js_includes msg ''debug'' \<or> js_includes msg ''error''
        then ''Problem Solving''
        else if js_includes msg ''learn'' \<or> js_includes msg ''teach'' \<or> js_includes msg ''tutorial''
        then ''Learning Session''
        else ''General Discussion'')"

section \<open>Conversation store: messages\<close>

datatype role = User | Assistant

record metadata =
  userAgent :: "string option"
  ipAddress :: "string option"
  sessionId :: "string option"
  timestamp :: "int option"

text \<open>
  A row of the table \<open>chatMessages\<close>: the schema's fields and the two system fields
  \<open>_id\<close> and \<open>_creationTime\<close> (here \<open>msg_id\<close> and \<open>creationTime\<close>).
\<close>

record chatMessage =
  msg_id :: nat
  creationTime :: int
  userId :: nat
  role :: role
  content :: string
  conversationId :: string
  conversationTitle :: "string option"
  model :: string
  tokensUsed :: "int option"
  responseTime :: "int option"
  metadata :: "metadata option"

type_synonym chatMessages = "chatMessage list"

text \<open>
  What a handler is given. \<open>getCurrentUser\<close> is imported from \<open>./users\<close>, which is not
  among the sources: the user it resolves (its \<open>_id\<close>, or nothing) is a field of the
  context, as are whether \<open>ctx.runAction\<close> completes or throws and the time the store
  stamps on an inserted row.
\<close>

record ctx =
  currentUser :: "nat option"
  actionRuns :: bool
  insertTime :: int

text \<open>
  Modelled from the spec: the document store's query engine is not part of the
  repository. A query over the index \<open>byConversation\<close> or \<open>byUser\<close> yields the matching
  rows in ascending creation time (rows of equal time in table order); \<open>order("desc")\<close>
  is the reverse; \<open>insert\<close> appends a row with an unused \<open>_id\<close> and the store's time;
  \<open>delete\<close> and \<open>patch\<close> address a row by \<open>_id\<close>.
\<close>

definition byConversation :: "chatMessages \<Rightarrow> string \<Rightarrow> chatMessage list" where
  "byConversation db cid = sort_key creationTime (filter (\<lambda>m. conversationId m = cid) db)"

definition byUser :: "chatMessages \<Rightarrow> nat \<Rightarrow> chatMessage list" where
  "byUser db u = sort_key creationTime (filter (\<lambda>m. userId m = u) db)"

definition fresh_id :: "chatMessages \<Rightarrow> nat" where
  "fresh_id db = Suc (fold max (map msg_id db) 0)"

definition db_insert :: "ctx \<Rightarrow> chatMessages \<Rightarrow> chatMessage \<Rightarrow> nat \<times> chatMessages" where
  "db_insert c db row =
     (fresh_id db, db @ [row\<lparr>msg_id := fresh_id db, creationTime := insertTime c\<rparr>])"

definition db_delete :: "chatMessages \<Rightarrow> nat \<Rightarrow> chatMessages" where
  "db_delete db i = filter (\<lambda>m. msg_id m \<noteq> i) db"

definition db_patch_title :: "chatMessages \<Rightarrow> nat \<Rightarrow> string \<Rightarrow> chatMessages" where
  "db_patch_title db i t = map (\<lambda>m. if msg_id m = i then m\<lparr>conversationTitle := Some t\<rparr> else m) db"

text \<open>\<open>ctx.runAction(internal.chat.generateTitle, {prompt})\<close>: the handler's value, or a throw.\<close>

definition runAction :: "ctx \<Rightarrow> (string \<Rightarrow> string) \<Rightarrow> string \<Rightarrow> string option" where
  "runAction c handler arg = (if actionRuns c then Some (handler arg) else None)"

text \<open>\<open>generateConversationTitle\<close>: the \<open>try\<close> body, and the literal of the \<open>catch\<close>.\<close>

definition generateConversationTitle :: "ctx \<Rightarrow> string \<Rightarrow> string" where
  "generateConversationTitle c userMessage =
    (case runAction c generateTitle (''Generate a title for this conversation: '' @ userMessage) of
       None \<Rightarrow> ''New Conversation''
     | Some title \<Rightarrow>
         let cleanTitle = (if js_trim title = [] then ''New Conversation'' else js_trim title);
             finalTitle = (if length cleanTitle > 50 then take 47 cleanTitle @ ''...'' else cleanTitle);
             finalTitle = strip_end_punct finalTitle
         in if finalTitle = [] then ''New Conversation'' else finalTitle)"

datatype store_error = Unauthenticated | NotFoundOrForbidden | NoUserMessages

text \<open>The arguments of \<open>saveMessage\<close> (fields prefixed \<open>arg_\<close>).\<close>

record saveArgs =
  arg_role :: role
  arg_content :: string
  arg_conversationId :: string
  arg_model :: string
  arg_tokensUsed :: "int option"
  arg_responseTime :: "int option"
  arg_metadata :: "metadata option"

text \<open>\<open>existingMessages.find(msg => msg.conversationTitle)?.conversationTitle\<close>: the title of
  the first row whose title is set and not the empty string.\<close>

definition has_title :: "chatMessage \<Rightarrow> bool" where
  "has_title m = (case conversationTitle m of None \<Rightarrow> False | Some t \<Rightarrow> t \<noteq> [])"

definition existingTitle :: "chatMessage list \<Rightarrow> string option" where
  "existingTitle existingMessages =
     (case find has_title existingMessages of None \<Rightarrow> None | Some m \<Rightarrow> conversationTitle m)"

text \<open>
  A mutation returns its value or the error it throws, and the table afterwards
  (unchanged when it throws).
\<close>

definition saveMessage :: "ctx \<Rightarrow> saveArgs \<Rightarrow> chatMessages \<Rightarrow> (store_error + nat) \<times> chatMessages" where
  "saveMessage c args db =
    (case currentUser c of
       None \<Rightarrow> (Inl Unauthenticated, db)
     | Some user \<Rightarrow>
         let existingMessages = byConversation db (arg_conversationId args);
             title =
               (if arg_role args = User then
                  (if length existingMessages = 0
                   then Some (generateConversationTitle c (arg_content args))
                   else existingTitle existingMessages)
                else existingTitle existingMessages);
             (messageId, db') = db_insert c db
               \<lparr>msg_id = 0, creationTime = 0, userId = user, role = arg_role args,
                content = arg_content args, conversationId = arg_conversationId args,
                conversationTitle = title, model = arg_model args,
                tokensUsed = arg_tokensUsed args, responseTime = arg_responseTime args,
                metadata = arg_metadata args\<rparr>
         in (Inr messageId, db'))"

definition getConversationMessages :: "chatMessages \<Rightarrow> string \<Rightarrow> chatMessage list" where
  "getConversationMessages db cid = byConversation db cid"

text \<open>The summaries of \<open>getUserConversations\<close> (the map's key is \<open>s_conversationId\<close>).\<close>

record summary =
  s_conversationId :: string
  lastMessage :: chatMessage
  messageCount :: nat
  createdAt :: int

text \<open>
  One iteration of the grouping loop. The \<open>Map\<close> is the list of its values in insertion
  order, one per key: a new key is appended with count \<open>0\<close>, then the count under the
  message's key is incremented.
\<close>

definition addMessage :: "summary list \<Rightarrow> chatMessage \<Rightarrow> summary list" where
  "addMessage conversationsMap m =
    (let withKey =
           (if conversationId m \<in> set (map s_conversationId conversationsMap) then conversationsMap
            else conversationsMap @
                  [\<lparr>s_conversationId = conversationId m, lastMessage = m,
                    messageCount = 0, createdAt = creationTime m\<rparr>])
     in map (\<lambda>v. if s_conversationId v = conversationId m
                  then v\<lparr>messageCount := messageCount v + 1\<rparr> else v) withKey)"

text \<open>\<open>Array.prototype.sort((a, b) => b.createdAt - a.createdAt)\<close>: stable, descending.\<close>

definition sortByCreatedAtDesc :: "summary list \<Rightarrow> summary list" where
  "sortByCreatedAtDesc xs = sort_key (\<lambda>v. - createdAt v) xs"

definition getUserConversations :: "ctx \<Rightarrow> chatMessages \<Rightarrow> summary list" where
  "getUserConversations c db =
    (case currentUser c of
       None \<Rightarrow> []
     | Some user \<Rightarrow>
         let messages = rev (byUser db user) in
         sortByCreatedAtDesc (foldl addMessage [] messages))"

definition deleteConversation ::
  "ctx \<Rightarrow> string \<Rightarrow> chatMessages \<Rightarrow> (store_error + nat) \<times> chatMessages" where
  "deleteConversation c cid db =
    (case currentUser c of
       None \<Rightarrow> (Inl Unauthenticated, db)
     | Some user \<Rightarrow>
         let messages = byConversation db cid;
             userMessages = filter (\<lambda>msg. userId msg = user) messages
         in
         if length userMessages = 0 then (Inl NotFoundOrForbidden, db)
         else (Inr (length messages), foldl (\<lambda>d msg. db_delete d (msg_id msg)) db messages))"

definition regenerateConversationTitle ::
  "ctx \<Rightarrow> string \<Rightarrow> chatMessages \<Rightarrow> (store_error + string) \<times> chatMessages" where
  "regenerateConversationTitle c cid db =
    (case currentUser c of
       None \<Rightarrow> (Inl Unauthenticated, db)
     | Some user \<Rightarrow>
         (case take 1 (filter (\<lambda>m. role m = User) (byConversation db cid)) of
            [] \<Rightarrow> (Inl NoUserMessages, db)
          | firstMessage # _ \<Rightarrow>
              let newTitle = generateConversationTitle c (content firstMessage);
                  allMessages = byConversation db cid
              in (Inr newTitle,
                  foldl (\<lambda>d msg. db_patch_title d (msg_id msg) newTitle) db allMessages)))"

section \<open>Conversation store: the stated title derivation\<close>

text \<open>
  The derivation as the specification words it, on the user's message itself: the first
  keyword of the list, in list order, that occurs in the lower-cased message gives
  \<open>Capitalize(keyword) + " Discussion"\<close>; else the three fallback groups in order; else
  \<open>General Discussion\<close>.
\<close>

definition stated_title :: "string \<Rightarrow> string" where
  "stated_title userMessage =
    (let m = toLowerCase userMessage in
     case find (\<lambda>k. js_includes m k) title_keywords of
       Some k \<Rightarrow> capitalize k @ '' Discussion''
     | None \<Rightarrow>
        if js_includes m ''create'' \<or> js_includes m ''build'' \<or> js_includes m ''make''
        then ''Project Creation''
        else if js_includes m ''fix'' \<or> js_includes m ''debug'' \<or> js_includes m ''error''
        then ''Problem Solving''
        else if js_includes m ''learn'' \<or> js_includes m ''teach'' \<or> js_includes m ''tutorial''
        then ''Learning Session''
        else ''General Discussion'')"

text \<open>The words of the three fallback groups.\<close>

definition fallback_words :: "string list" where
  "fallback_words = [''create'', ''build'', ''make'', ''fix'', ''debug'', ''error'',
                     ''learn'', ''teach'', ''tutorial'']"

text \<open>Every title the keyword heuristic can produce.\<close>

definition all_titles :: "string list" where
  "all_titles =
     map (\<lambda>k. capitalize k @ '' Discussion'') title_keywords @
     [''Project Creation'', ''Problem Solving'', ''Learning Session'', ''General Discussion'']"

text \<open>
  Sample contexts: a signed-in user whose \<open>ctx.runAction\<close> runs the action, one for whom
  it throws (as it does in a mutation, whose context has no \<open>runAction\<close>), and nobody.
\<close>

definition ctx_user :: ctx where
  "ctx_user = \<lparr>currentUser = Some 7, actionRuns = True, insertTime = 5000\<rparr>"

definition ctx_failing :: ctx where
  "ctx_failing = \<lparr>currentUser = Some 7, actionRuns = False, insertTime = 5000\<rparr>"

definition ctx_anonymous :: ctx where
  "ctx_anonymous = \<lparr>currentUser = None, actionRuns = True, insertTime = 5000\<rparr>"

section \<open>Conversation store: invariants and a sample table\<close>

text \<open>
  Two properties of every table the store's own operations build: \<open>_id\<close> is a key, and a
  title that is set is not the empty string.
\<close>

definition ids_distinct :: "chatMessages \<Rightarrow> bool" where
  "ids_distinct db = distinct (map msg_id db)"

definition titles_nonempty :: "chatMessages \<Rightarrow> bool" where
  "titles_nonempty db = list_all (\<lambda>m. conversationTitle m \<noteq> Some []) db"

definition sample_row ::
  "nat \<Rightarrow> int \<Rightarrow> nat \<Rightarrow> role \<Rightarrow> string \<Rightarrow> string \<Rightarrow> string option \<Rightarrow> chatMessage" where
  "sample_row i t u r txt cid title =
     \<lparr>msg_id = i, creationTime = t, userId = u, role = r, content = txt,
      conversationId = cid, conversationTitle = title, model = ''gpt-5-2025-08-07'',
      tokensUsed = None, responseTime = None, metadata = None\<rparr>"

text \<open>
  Conversation \<open>A\<close> of user 7 starts first and is active last, with a stray row of user 8
  under the same id; conversation \<open>B\<close> of user 7 lies in between.
\<close>

definition sample_db :: chatMessages where
  "sample_db =
    [sample_row 1 100 7 User ''help me fix a bug'' ''A'' (Some ''New Conversation''),
     sample_row 2 300 7 User ''hello'' ''B'' (Some ''General Discussion''),
     sample_row 3 350 7 Assistant ''hi'' ''B'' (Some ''General Discussion''),
     sample_row 4 400 8 User ''stray'' ''A'' None,
     sample_row 5 500 7 Assistant ''done'' ''A'' (Some ''New Conversation'')]"

definition sample_save :: saveArgs where
  "sample_save =
     \<lparr>arg_role = User, arg_content = ''how can you help'', arg_conversationId = ''C'',
      arg_model = ''gpt-5-2025-08-07'', arg_tokensUsed = None, arg_responseTime = None,
      arg_metadata = None\<rparr>"

definition sample_reply :: saveArgs where
  "sample_reply =
     \<lparr>arg_role = Assistant, arg_content = ''hi again'', arg_conversationId = ''B'',
      arg_model = ''gpt-5-2025-08-07'', arg_tokensUsed = Some 12, arg_responseTime = Some 40,
      arg_metadata = None\<rparr>"

section \<open>Theorems\<close>

subsection \<open>Token-usage extraction\<close>

text \<open>
  Claim C4, as stated, fails: the direct usage object is not probed first. On a response
  with both a direct \<open>usage\<close> object and a nested \<open>response_metadata.usage_metadata\<close>,
  \<open>extractTokenUsage\<close> returns the nested counts, where the stated order returns the
  direct ones.
\<close>

theorem extractTokenUsage_direct_not_first:
  "extractTokenUsage response_both =
     \<lparr>inputTokens = Num 12, outputTokens = Num 34, totalTokens = Num 46\<rparr> \<and>
   first_probe stated_probe_order response_both =
     \<lparr>inputTokens = Num 1, outputTokens = Num 2, totalTokens = Num 3\<rparr>"
  by (simp add: extractTokenUsage_def response_both_def stated_probe_order_def
      probe_direct_def js_or_def)

text \<open>
  Claim C4, amended: token-usage extraction probes, in this order, the nested
  \<open>response_metadata.usage_metadata\<close>, the nested \<open>response_metadata.tokenUsage\<close>, the
  callback-style \<open>llmOutput.tokenUsage\<close>, the direct \<open>usage\<close> object, and last the
  top-level fields whose key contains \<open>token\<close>; the first source present decides. A
  response whose \<open>response_metadata.usage_metadata\<close> holds \<open>input_tokens = 12\<close>,
  \<open>output_tokens = 34\<close>, \<open>total_tokens = 46\<close> gives 12, 34 and 46, and a response on which
  no probe finds usage data gives all zeros; the function is total, it never throws.
\<close>

theorem extractTokenUsage_probe_order:
  "extractTokenUsage r = first_probe source_probe_order r \<and>
   (js_get (js_get r ''response_metadata'') ''usage_metadata'' =
      Obj [(''input_tokens'', Num 12), (''output_tokens'', Num 34), (''total_tokens'', Num 46)]
    \<longrightarrow> extractTokenUsage r =
          \<lparr>inputTokens = Num 12, outputTokens = Num 34, totalTokens = Num 46\<rparr>) \<and>
   ((\<forall>p \<in> set source_probe_order. p r = None) \<longrightarrow> extractTokenUsage r = zeroUsage)"
proof -
  have order: "extractTokenUsage r = first_probe source_probe_order r"
    by (simp add: extractTokenUsage_def source_probe_order_def probe_usage_metadata_def
        probe_metadata_tokenUsage_def probe_llmOutput_def probe_direct_def probe_scan_def
        camelUsage_def Let_def split: option.splits)
  have nested: "extractTokenUsage r =
      \<lparr>inputTokens = Num 12, outputTokens = Num 34, totalTokens = Num 46\<rparr>"
    if h: "js_get (js_get r ''response_metadata'') ''usage_metadata'' =
      Obj [(''input_tokens'', Num 12), (''output_tokens'', Num 34), (''total_tokens'', Num 46)]"
  proof -
    have "truthy (js_get r ''response_metadata'')"
      using h by (cases "js_get r ''response_metadata''") simp_all
    then show ?thesis
      using h by (simp add: extractTokenUsage_def js_or_def)
  qed
  have none: "extractTokenUsage r = zeroUsage"
    if "\<forall>p \<in> set source_probe_order. p r = None"
    using that unfolding order by (simp add: source_probe_order_def)
  from order nested none show ?thesis by blast
qed

theorem extractTokenUsage_probe_order_witness:
  "extractTokenUsage response_nested =
     \<lparr>inputTokens = Num 12, outputTokens = Num 34, totalTokens = Num 46\<rparr> \<and>
   extractTokenUsage response_plain = zeroUsage"
proof -
  have a: "js_get (js_get response_nested ''response_metadata'') ''usage_metadata'' =
      Obj [(''input_tokens'', Num 12), (''output_tokens'', Num 34), (''total_tokens'', Num 46)]"
    by (simp add: response_nested_def)
  have b: "\<forall>p \<in> set source_probe_order. p response_plain = None"
    by (simp add: source_probe_order_def response_plain_def probe_usage_metadata_def
        probe_metadata_tokenUsage_def probe_llmOutput_def probe_direct_def probe_scan_def
        js_includes_def toLowerCase_def lower_char_def)
  from extractTokenUsage_probe_order [of response_nested] a
       extractTokenUsage_probe_order [of response_plain] b
  show ?thesis by blast
qed

text \<open>
  The earlier version probes the direct usage object first, but it does not read
  \<open>response_metadata.usage_metadata\<close> at all: on the response with usage only there it
  gives zeros, whatever \<open>+\<close> does.
\<close>

lemma extractTokenUsage_earlier_samples:
  "extractTokenUsage_earlier js_plus response_both =
     Inr \<lparr>inputTokens = Num 1, outputTokens = Num 2, totalTokens = Num 3\<rparr> \<and>
   extractTokenUsage_earlier js_plus response_nested = Inr zeroUsage"
  by (simp add: extractTokenUsage_earlier_def response_both_def response_nested_def js_or_def
      zeroUsage_def js_includes_def toLowerCase_def lower_char_def sublist_code)

subsection \<open>Auxiliary facts about the completion client\<close>


lemma gcwt_unfold:
  "generateCompletionWithTokens w input s =
    (case generateCompletionWithTokens_try w input (clock w (ticks s)) (s\<lparr>ticks := Suc (ticks s)\<rparr>) of
       (Inr r, s1) \<Rightarrow> (Inr r, s1)
     | (Inl e, s1) \<Rightarrow>
        (Inr \<lparr>c_text = Str (errorMessage e), c_tokensUsed = Num 0,
               c_inputTokens = Num 0, c_outputTokens = Num 0,
               c_responseTime = clock w (ticks s1) - clock w (ticks s),
               c_finishReason = Str ''error''\<rparr>, s1\<lparr>ticks := Suc (ticks s1)\<rparr>))"
  by (simp add: generateCompletionWithTokens_def generateCompletionWithTokens_catch_def dateNow_def
       split: prod.splits sum.splits)

lemma gcwt_total: "\<exists>r s'. generateCompletionWithTokens w input s = (Inr r, s')"
  by (simp add: gcwt_unfold split: prod.splits sum.splits)







lemma try_calls:
  "calls (snd (generateCompletionWithTokens_try w input t s)) =
   calls s @
     (if \<not> env_set (OPENAI_API_KEY w) then []
      else case model_invoke w input of
             Inl e \<Rightarrow> [ModelInvoke input]
           | Inr r \<Rightarrow>
               if \<not> nullish r \<and> \<not> nullish (js_get r ''content'') \<and>
                  totalTokens (extractTokenUsage r) = Num 0
               then [ModelInvoke input,
                     OpenAICreate (env_or (AI_MODEL w) ''gpt-5-2025-08-07'') input]
               else [ModelInvoke input])"
  by (auto simp: generateCompletionWithTokens_try_def outboundCall_def dateNow_def Let_def
      split: if_splits sum.splits option.splits prod.splits)

lemma gcwt_calls_eq:
  "calls (snd (generateCompletionWithTokens w input s)) =
   calls (snd (generateCompletionWithTokens_try w input (clock w (ticks s)) (s\<lparr>ticks := Suc (ticks s)\<rparr>)))"
  by (simp add: gcwt_unfold split: prod.splits sum.splits)

lemma gcwt_calls:
  "calls (snd (generateCompletionWithTokens w input s)) =
   calls s @
     (if \<not> env_set (OPENAI_API_KEY w) then []
      else case model_invoke w input of
             Inl e \<Rightarrow> [ModelInvoke input]
           | Inr r \<Rightarrow>
               if \<not> nullish r \<and> \<not> nullish (js_get r ''content'') \<and>
                  totalTokens (extractTokenUsage r) = Num 0
               then [ModelInvoke input,
                     OpenAICreate (env_or (AI_MODEL w) ''gpt-5-2025-08-07'') input]
               else [ModelInvoke input]) \<and>
   length (calls (snd (generateCompletionWithTokens w input s))) \<le> length (calls s) + 2"
  unfolding gcwt_calls_eq try_calls by (simp split: sum.splits)


lemma chatPOST_unfold:
  assumes "string_field body ''input'' \<noteq> []"
      and "generateCompletionWithTokens w (request_prompt body) s = (Inr r, s1)"
  shows "chatPOST w body s =
     (Json 200 (Obj [(''text'', c_text r),
                     (''conversationId'', Str (string_field body ''conversationId'')),
                     (''timestamp'', Num (clock w (ticks s1))),
                     (''model'', Str (env_or (AI_MODEL w) ''gpt-4.1-nano-2025-04-14'')),
                     (''tokensUsed'', c_tokensUsed r),
                     (''inputTokens'', c_inputTokens r),
                     (''outputTokens'', c_outputTokens r),
                     (''responseTime'', Num (c_responseTime r)),
                     (''finishReason'', c_finishReason r)]), s1\<lparr>ticks := Suc (ticks s1)\<rparr>)"
  using assms by (simp add: chatPOST_def Let_def dateNow_def)





subsection \<open>The synchronous endpoint\<close>




subsection \<open>The completion client: failures\<close>




subsection \<open>The completion client: outbound calls\<close>

text \<open>
  Claim C3, as stated, fails: when \<open>model.invoke\<close> answers without usage data, the
  client calls the provider a second time, through the direct client, with the same
  input.
\<close>

theorem generateCompletionWithTokens_two_calls:
  "calls (snd (generateCompletionWithTokens world_ok ''hi'' no_effects)) =
     [ModelInvoke ''hi'', OpenAICreate ''gpt-5-2025-08-07'' ''hi'']"
  by (simp add: gcwt_calls_eq try_calls world_ok_def no_effects_def env_set_def env_or_def
      response_plain_def extractTokenUsage_def zeroUsage_def js_includes_def toLowerCase_def lower_char_def)

text \<open>
  Claim C3, amended: for every request the completion client performs at most two
  outbound calls: none when the API key is missing; otherwise one \<open>model.invoke\<close>,
  followed by one direct chat-completions call with the same input exactly when the
  first call returned a response with a text and the extracted \<open>totalTokens\<close> is 0. A
  call that failed is never repeated.
\<close>

theorem generateCompletionWithTokens_calls:
  "calls (snd (generateCompletionWithTokens w input s)) =
   calls s @
     (if \<not> env_set (OPENAI_API_KEY w) then []
      else case model_invoke w input of
             Inl e \<Rightarrow> [ModelInvoke input]
           | Inr r \<Rightarrow>
               if \<not> nullish r \<and> \<not> nullish (js_get r ''content'') \<and>
                  totalTokens (extractTokenUsage r) = Num 0
               then [ModelInvoke input,
                     OpenAICreate (env_or (AI_MODEL w) ''gpt-5-2025-08-07'') input]
               else [ModelInvoke input]) \<and>
   length (calls (snd (generateCompletionWithTokens w input s))) \<le> length (calls s) + 2"
  by (rule gcwt_calls)

theorem generateCompletionWithTokens_calls_witness:
  "calls (snd (generateCompletionWithTokens world_usage ''hi'' no_effects)) = [ModelInvoke ''hi''] \<and>
   calls (snd (generateCompletionWithTokens world_timeout429 ''hi'' no_effects)) = [ModelInvoke ''hi''] \<and>
   calls (snd (generateCompletionWithTokens world_nokey ''hi'' no_effects)) = []"
proof -
  have k: "env_set (OPENAI_API_KEY world_usage)" "env_set (OPENAI_API_KEY world_timeout429)"
          "\<not> env_set (OPENAI_API_KEY world_nokey)"
    by (simp_all add: world_usage_def world_timeout429_def world_nokey_def world_ok_def env_set_def)
  have m: "model_invoke world_usage ''hi'' = Inr response_nested"
          "model_invoke world_timeout429 ''hi'' = Inl \<lparr>message = Some ''Request timeout'', status = Some 429\<rparr>"
    by (simp_all add: world_usage_def world_timeout429_def world_ok_def)
  have t: "totalTokens (extractTokenUsage response_nested) \<noteq> Num 0"
    by (simp add: extractTokenUsage_def response_nested_def js_or_def)
  from generateCompletionWithTokens_calls [of world_usage "''hi''" no_effects]
       generateCompletionWithTokens_calls [of world_timeout429 "''hi''" no_effects]
       generateCompletionWithTokens_calls [of world_nokey "''hi''" no_effects]
  show ?thesis
    by (simp add: k m t no_effects_def)
qed

subsection \<open>The prompt sent upstream\<close>

text \<open>
  Claim C10: on a request with a non-empty input, every outbound call of the synchronous
  endpoint (at least one when the API key is set) and the one call of the streaming
  endpoint carry the prompt built from the body. With a non-empty \<open>conversationId\<close> that
  prompt is \<open>[Conversation: <conversationId>]\<close>, a newline, and the input, so it differs
  from the input; with an empty, absent or non-string \<open>conversationId\<close> it is the input
  unchanged.
\<close>

theorem endpoints_prompt:
  "(string_field body ''input'' \<noteq> [] \<longrightarrow>
      (\<exists>cs. calls (snd (chatPOST w body s)) = calls s @ cs \<and>
            (\<forall>c \<in> set cs. human_message c = request_prompt body) \<and>
            (env_set (OPENAI_API_KEY w) \<longrightarrow> cs \<noteq> [])) \<and>
      calls (snd (streamPOST w body s)) = calls s @ [ChainStream (request_prompt body)]) \<and>
   (string_field body ''conversationId'' \<noteq> [] \<longrightarrow>
      request_prompt body =
        ''[Conversation: '' @ string_field body ''conversationId'' @ '']'' @ [CHR 0x0A] @
        string_field body ''input'' \<and>
      request_prompt body \<noteq> string_field body ''input'') \<and>
   (string_field body ''conversationId'' = [] \<longrightarrow>
      request_prompt body = string_field body ''input'') \<and>
   ((\<forall>x. js_get body ''conversationId'' \<noteq> Str x) \<longrightarrow>
      request_prompt body = string_field body ''input'')"
proof -
  let ?p = "request_prompt body"
  have chat: "\<exists>cs. calls (snd (chatPOST w body s)) = calls s @ cs \<and>
            (\<forall>c \<in> set cs. human_message c = ?p) \<and>
            (env_set (OPENAI_API_KEY w) \<longrightarrow> cs \<noteq> [])"
    if inp: "string_field body ''input'' \<noteq> []"
  proof -
    obtain r s1 where g: "generateCompletionWithTokens w ?p s = (Inr r, s1)"
      using gcwt_total [of w ?p s] by blast
    have "calls (snd (chatPOST w body s)) = calls (snd (generateCompletionWithTokens w ?p s))"
      by (simp add: chatPOST_unfold [OF inp g] g)
    then show ?thesis
      using gcwt_calls [of w ?p s]
      by (auto split: sum.splits if_splits)
  qed
  have stream: "calls (snd (streamPOST w body s)) = calls s @ [ChainStream ?p]"
    if "string_field body ''input'' \<noteq> []"
    using that by (simp add: streamPOST_def Let_def outboundCall_def split: prod.splits)
  have absent: "string_field body ''conversationId'' = []"
    if "\<forall>x. js_get body ''conversationId'' \<noteq> Str x"
    using that by (cases "js_get body ''conversationId''") (simp_all add: string_field_def)
  show ?thesis
    using chat stream absent by (simp add: enhancedInput_def)
qed

theorem endpoints_prompt_witness:
  "calls (snd (streamPOST world_usage body_conv no_effects)) =
     [ChainStream (''[Conversation: c1]'' @ [CHR 0x0A] @ ''hi'')] \<and>
   request_prompt body_conv \<noteq> ''hi'' \<and>
   request_prompt body_hi = ''hi''"
proof -
  have i: "string_field body_conv ''input'' = ''hi''" "string_field body_conv ''conversationId'' = ''c1''"
          "string_field body_hi ''input'' = ''hi''" "string_field body_hi ''conversationId'' = []"
    by (simp_all add: body_conv_def body_hi_def string_field_def)
  note a = endpoints_prompt [of body_conv world_usage no_effects]
  note b = endpoints_prompt [of body_hi world_usage no_effects]
  have a1: "calls (snd (streamPOST world_usage body_conv no_effects)) =
      calls no_effects @ [ChainStream (request_prompt body_conv)]"
    using a i by simp
  have a2: "request_prompt body_conv = ''[Conversation: '' @ ''c1'' @ '']'' @ [CHR 0x0A] @ ''hi'' \<and>
      request_prompt body_conv \<noteq> ''hi''"
    using a i by simp
  have b1: "request_prompt body_hi = ''hi''"
    using b i by simp
  from a1 a2 b1 show ?thesis by (simp add: no_effects_def)
qed

subsection \<open>Auxiliary facts about titles\<close>

lemma toLowerCase_append: "toLowerCase (a @ b) = toLowerCase a @ toLowerCase b"
  by (simp add: toLowerCase_def)

lemma lower_prefix:
  "toLowerCase ''Generate a title for this conversation: '' = ''generate a title for this conversation:'' @ '' ''"
  by code_simp

lemma includes_past_space:
  assumes "CHR '' '' \<notin> set k" and "\<not> sublist k (p @ '' '')"
  shows "js_includes ((p @ '' '') @ m) k = js_includes m k"
proof -
  have "\<not> (\<exists>k1 k2. k = k1 @ k2 \<and> k1 \<noteq> [] \<and> suffix k1 (p @ '' ''))"
  proof
    assume "\<exists>k1 k2. k = k1 @ k2 \<and> k1 \<noteq> [] \<and> suffix k1 (p @ '' '')"
    then obtain k1 k2 where k: "k = k1 @ k2" and ne: "k1 \<noteq> []" and sf: "suffix k1 (p @ '' '')"
      by blast
    from sf obtain q where "p @ '' '' = q @ k1" by (auto simp: suffix_def)
    with ne have "last k1 = CHR '' ''" by (metis last_appendR last_snoc)
    with ne have "CHR '' '' \<in> set k1" by (metis last_in_set)
    with k assms(1) show False by simp
  qed
  then have "(\<exists>k1 k2. k = k1 @ k2 \<and> suffix k1 (p @ '' '') \<and> prefix k2 m) \<longrightarrow> sublist k m"
    by (metis append_Nil prefix_imp_sublist)
  with assms(2) show ?thesis
    unfolding js_includes_def sublist_append [of k "p @ '' ''" m] by blast
qed

lemma words_ok:
  "\<forall>k \<in> set (title_keywords @ fallback_words).
     CHR '' '' \<notin> set k \<and> \<not> sublist k (''generate a title for this conversation:'' @ '' '')"
  by (simp add: title_keywords_def fallback_words_def sublist_code)

lemma titles_clean:
  "\<forall>t \<in> set all_titles. js_trim t = t \<and> length t \<le> 50 \<and> strip_end_punct t = t \<and> t \<noteq> [] \<and>
      \<not> is_end_punct (last t)"
  by code_simp

lemma find_filter_case:
  "(case filter P xs of x # _ \<Rightarrow> f x | [] \<Rightarrow> g) = (case find P xs of Some x \<Rightarrow> f x | None \<Rightarrow> g)"
  by (induction xs) auto

lemma stated_title_in: "stated_title m \<in> set all_titles"
proof (cases "find (\<lambda>k. js_includes (toLowerCase m) k) title_keywords")
  case None
  then show ?thesis by (simp add: stated_title_def all_titles_def Let_def)
next
  case (Some k)
  then have "k \<in> set title_keywords" by (auto simp: find_Some_iff)
  with Some show ?thesis by (simp add: stated_title_def all_titles_def Let_def)
qed

lemma generateTitle_prompt:
  "generateTitle (''Generate a title for this conversation: '' @ m) = stated_title m"
proof -
  define P where "P = ''generate a title for this conversation:'' @ '' ''"
  define lm where "lm = toLowerCase m"
  have low: "toLowerCase (''Generate a title for this conversation: '' @ m) = P @ lm"
    by (simp only: toLowerCase_append lower_prefix P_def lm_def)
  have inc: "js_includes (P @ lm) k = js_includes lm k"
    if "k \<in> set (title_keywords @ fallback_words)" for k
    using words_ok that includes_past_space [of k "''generate a title for this conversation:''" lm]
    unfolding P_def by blast
  have flt: "filter (\<lambda>k. js_includes (P @ lm) k) title_keywords =
             filter (\<lambda>k. js_includes lm k) title_keywords"
    by (rule filter_cong) (simp_all add: inc)
  have fnd: "find (\<lambda>k. js_includes (P @ lm) k) title_keywords =
             find (\<lambda>k. js_includes lm k) title_keywords"
    by (rule find_cong) (simp_all add: inc)
  have fb: "js_includes (P @ lm) k = js_includes lm k"
    if "k \<in> set fallback_words" for k
    using inc that by simp
  have fbs: "js_includes (P @ lm) ''create'' = js_includes lm ''create''"
    "js_includes (P @ lm) ''build'' = js_includes lm ''build''"
    "js_includes (P @ lm) ''make'' = js_includes lm ''make''"
    "js_includes (P @ lm) ''fix'' = js_includes lm ''fix''"
    "js_includes (P @ lm) ''debug'' = js_includes lm ''debug''"
    "js_includes (P @ lm) ''error'' = js_includes lm ''error''"
    "js_includes (P @ lm) ''learn'' = js_includes lm ''learn''"
    "js_includes (P @ lm) ''teach'' = js_includes lm ''teach''"
    "js_includes (P @ lm) ''tutorial'' = js_includes lm ''tutorial''"
    by (rule fb, simp add: fallback_words_def)+
  show ?thesis
    unfolding generateTitle_def stated_title_def low Let_def find_filter_case fnd fbs lm_def [symmetric]
    by (rule refl)
qed

lemma generateConversationTitle_eq:
  "generateConversationTitle c m = (if actionRuns c then stated_title m else ''New Conversation'')"
proof -
  from stated_title_in titles_clean
  have "js_trim (stated_title m) = stated_title m \<and> length (stated_title m) \<le> 50 \<and>
        strip_end_punct (stated_title m) = stated_title m \<and> stated_title m \<noteq> []"
    by blast
  then show ?thesis
    unfolding generateConversationTitle_def runAction_def generateTitle_prompt
    by (simp add: Let_def)
qed

lemma help_title: "stated_title ''help me fix a bug'' = ''Help Discussion''"
  by code_simp

subsection \<open>Title derivation\<close>

text \<open>
  Claim C6: the title derived for a user message is the stated one: the action receives
  the message behind a fixed prefix, which contributes no keyword, lower-cases it, and
  the first keyword of the list found in it, in list order, gives
  \<open>Capitalize(keyword) + " Discussion"\<close>; else the fallback groups decide in their order;
  else the title is \<open>General Discussion\<close>. Trimming, the cut at 50 characters and the
  removal of one trailing \<open>.\<close>, \<open>!\<close> or \<open>?\<close> leave such a title as it is, so the final
  title has at most 50 characters, is not empty and ends in none of the three. When the
  action fails, the title is the literal \<open>New Conversation\<close>.
\<close>

theorem generateConversationTitle_derivation:
  "generateTitle (''Generate a title for this conversation: '' @ userMessage) =
     stated_title userMessage \<and>
   generateConversationTitle c userMessage =
     (if actionRuns c then stated_title userMessage else ''New Conversation'') \<and>
   length (generateConversationTitle c userMessage) \<le> 50 \<and>
   generateConversationTitle c userMessage \<noteq> [] \<and>
   \<not> is_end_punct (last (generateConversationTitle c userMessage)) \<and>
   strip_end_punct (generateConversationTitle c userMessage) = generateConversationTitle c userMessage"
proof -
  from stated_title_in titles_clean
  have "length (stated_title userMessage) \<le> 50 \<and> stated_title userMessage \<noteq> [] \<and>
        \<not> is_end_punct (last (stated_title userMessage)) \<and>
        strip_end_punct (stated_title userMessage) = stated_title userMessage"
    by blast
  moreover have "length ''New Conversation'' \<le> 50 \<and> \<not> is_end_punct (last ''New Conversation'') \<and>
     strip_end_punct ''New Conversation'' = ''New Conversation''"
    by (simp add: is_end_punct_def strip_end_punct_def)
  ultimately show ?thesis
    unfolding generateTitle_prompt generateConversationTitle_eq by simp
qed

theorem generateConversationTitle_derivation_witness:
  "generateConversationTitle ctx_user ''how can you help'' = ''Help Discussion'' \<and>
   generateConversationTitle ctx_user ''Please make a logo!'' = ''Project Creation'' \<and>
   generateConversationTitle ctx_user ''hello'' = ''General Discussion'' \<and>
   generateConversationTitle ctx_failing ''how can you help'' = ''New Conversation''"
proof -
  have a: "actionRuns ctx_user" "\<not> actionRuns ctx_failing"
    by (simp_all add: ctx_user_def ctx_failing_def)
  have t: "stated_title ''how can you help'' = ''Help Discussion''"
          "stated_title ''Please make a logo!'' = ''Project Creation''"
          "stated_title ''hello'' = ''General Discussion''"
    by code_simp+
  from generateConversationTitle_derivation [of "''how can you help''" ctx_user]
       generateConversationTitle_derivation [of "''Please make a logo!''" ctx_user]
       generateConversationTitle_derivation [of "''hello''" ctx_user]
       generateConversationTitle_derivation [of "''how can you help''" ctx_failing]
  show ?thesis
    by (simp only: a t if_True if_False simp_thms)
qed

subsection \<open>Auxiliary facts about the table\<close>

lemma set_byConversation: "set (byConversation db cid) = {m \<in> set db. conversationId m = cid}"
  by (auto simp: byConversation_def)

lemma foldl_patch:
  "foldl (\<lambda>d msg. db_patch_title d (msg_id msg) t) db msgs =
   map (\<lambda>m. if msg_id m \<in> msg_id ` set msgs then m\<lparr>conversationTitle := Some t\<rparr> else m) db"
proof (induction msgs arbitrary: db rule: rev_induct)
  case Nil
  then show ?case by simp
next
  case (snoc x xs)
  have "foldl (\<lambda>d msg. db_patch_title d (msg_id msg) t) db (xs @ [x]) =
        db_patch_title (foldl (\<lambda>d msg. db_patch_title d (msg_id msg) t) db xs) (msg_id x) t"
    by simp
  also have "\<dots> = db_patch_title
      (map (\<lambda>m. if msg_id m \<in> msg_id ` set xs then m\<lparr>conversationTitle := Some t\<rparr> else m) db)
      (msg_id x) t"
    by (simp only: snoc.IH)
  also have "\<dots> = map (\<lambda>m. if msg_id m \<in> msg_id ` set (xs @ [x])
                            then m\<lparr>conversationTitle := Some t\<rparr> else m) db"
    by (auto simp: db_patch_title_def)
  finally show ?case .
qed

lemma foldl_delete:
  "foldl (\<lambda>d msg. db_delete d (msg_id msg)) db msgs =
   filter (\<lambda>m. msg_id m \<notin> msg_id ` set msgs) db"
proof (induction msgs arbitrary: db rule: rev_induct)
  case Nil
  then show ?case by simp
next
  case (snoc x xs)
  have "foldl (\<lambda>d msg. db_delete d (msg_id msg)) db (xs @ [x]) =
        db_delete (foldl (\<lambda>d msg. db_delete d (msg_id msg)) db xs) (msg_id x)"
    by simp
  also have "\<dots> = db_delete (filter (\<lambda>m. msg_id m \<notin> msg_id ` set xs) db) (msg_id x)"
    by (simp only: snoc.IH)
  also have "\<dots> = filter (\<lambda>m. msg_id m \<notin> msg_id ` set (xs @ [x])) db"
    by (auto simp: db_delete_def intro: filter_cong)
  finally show ?case .
qed

lemma id_in_conversation:
  assumes "ids_distinct db" and "m \<in> set db"
  shows "msg_id m \<in> msg_id ` set (byConversation db cid) \<longleftrightarrow> conversationId m = cid"
proof -
  from assms(1) have inj: "inj_on msg_id (set db)"
    by (simp add: ids_distinct_def distinct_map)
  show ?thesis
  proof
    assume "msg_id m \<in> msg_id ` set (byConversation db cid)"
    then obtain m' where m': "m' \<in> set db" "conversationId m' = cid" "msg_id m = msg_id m'"
      by (auto simp: set_byConversation)
    with inj assms(2) have "m = m'" by (auto dest: inj_onD)
    with m' show "conversationId m = cid" by simp
  next
    assume "conversationId m = cid"
    with assms(2) show "msg_id m \<in> msg_id ` set (byConversation db cid)"
      by (auto simp: set_byConversation)
  qed
qed

lemma delete_cases:
  assumes "currentUser c = Some u" and "ids_distinct db"
  shows "deleteConversation c cid db =
    (if \<exists>m \<in> set db. conversationId m = cid \<and> userId m = u
     then (Inr (length (filter (\<lambda>m. conversationId m = cid) db)),
           filter (\<lambda>m. conversationId m \<noteq> cid) db)
     else (Inl NotFoundOrForbidden, db))"
proof -
  have own: "filter (\<lambda>msg. userId msg = u) (byConversation db cid) = [] \<longleftrightarrow>
             \<not> (\<exists>m \<in> set db. conversationId m = cid \<and> userId m = u)"
    by (auto simp: filter_empty_conv set_byConversation)
  have len: "length (byConversation db cid) = length (filter (\<lambda>m. conversationId m = cid) db)"
    by (simp add: byConversation_def)
  have del: "foldl (\<lambda>d msg. db_delete d (msg_id msg)) db (byConversation db cid) =
             filter (\<lambda>m. conversationId m \<noteq> cid) db"
    unfolding foldl_delete
    by (rule filter_cong) (simp_all add: id_in_conversation [OF assms(2)])
  show ?thesis
    using assms(1) own by (simp add: deleteConversation_def Let_def len del)
qed

lemma head_least:
  assumes "sort_key f xs = x # rest"
  shows "x \<in> set xs \<and> (\<forall>y \<in> set xs. f x \<le> f y)"
proof -
  have "sorted (map f (sort_key f xs))" by (rule sorted_sort_key)
  with assms have "\<forall>y \<in> set (x # rest). f x \<le> f y" by auto
  moreover have "set (x # rest) = set xs" using assms by (metis set_sort)
  ultimately show ?thesis by auto
qed

lemma first_user_message:
  "filter (\<lambda>m. role m = User) (byConversation db cid) =
   sort_key creationTime (filter (\<lambda>m. conversationId m = cid \<and> role m = User) db)"
  by (simp add: byConversation_def filter_sort conj_commute)

lemma regenerate_cases:
  assumes "currentUser c = Some u"
  shows "regenerateConversationTitle c cid db =
    (case sort_key creationTime (filter (\<lambda>m. conversationId m = cid \<and> role m = User) db) of
       [] \<Rightarrow> (Inl NoUserMessages, db)
     | firstMessage # _ \<Rightarrow>
         (Inr (generateConversationTitle c (content firstMessage)),
          map (\<lambda>m. if msg_id m \<in> msg_id ` set (byConversation db cid)
                    then m\<lparr>conversationTitle := Some (generateConversationTitle c (content firstMessage))\<rparr>
                    else m) db))"
  using assms
  by (simp add: regenerateConversationTitle_def first_user_message foldl_patch Let_def
      split: list.splits)

subsection \<open>Deleting a conversation\<close>

text \<open>
  Claim C8: for an authenticated caller, on a table whose \<open>_id\<close> is a key: when the
  caller owns at least one message under the conversation id, \<open>deleteConversation\<close>
  removes every message with that id, whoever owns it, keeps every other message, and
  returns the number of messages removed; when the caller owns none, it fails with
  \<open>NotFoundOrForbidden\<close> and the table is unchanged.
\<close>

theorem deleteConversation_all_or_nothing:
  assumes "currentUser c = Some u" and "ids_distinct db"
  shows "((\<exists>m \<in> set db. conversationId m = cid \<and> userId m = u) \<longrightarrow>
           deleteConversation c cid db =
             (Inr (length (filter (\<lambda>m. conversationId m = cid) db)),
              filter (\<lambda>m. conversationId m \<noteq> cid) db) \<and>
           length (filter (\<lambda>m. conversationId m = cid) db) +
             length (snd (deleteConversation c cid db)) = length db) \<and>
         (\<not> (\<exists>m \<in> set db. conversationId m = cid \<and> userId m = u) \<longrightarrow>
           deleteConversation c cid db = (Inl NotFoundOrForbidden, db))"
  using sum_length_filter_compl [of "\<lambda>m. conversationId m = cid" db]
  by (simp add: delete_cases [OF assms])

theorem deleteConversation_all_or_nothing_witness:
  "deleteConversation ctx_user ''A'' sample_db =
     (Inr 3, [sample_row 2 300 7 User ''hello'' ''B'' (Some ''General Discussion''),
              sample_row 3 350 7 Assistant ''hi'' ''B'' (Some ''General Discussion'')]) \<and>
   deleteConversation (ctx_user\<lparr>currentUser := Some 8\<rparr>) ''B'' sample_db =
     (Inl NotFoundOrForbidden, sample_db)"
proof -
  have u: "currentUser ctx_user = Some 7" "currentUser (ctx_user\<lparr>currentUser := Some 8\<rparr>) = Some 8"
    by (simp_all add: ctx_user_def)
  have d: "ids_distinct sample_db"
    by (simp add: ids_distinct_def sample_db_def sample_row_def)
  have own: "\<exists>m \<in> set sample_db. conversationId m = ''A'' \<and> userId m = 7"
    by (simp add: sample_db_def sample_row_def)
  have foreign: "\<not> (\<exists>m \<in> set sample_db. conversationId m = ''B'' \<and> userId m = 8)"
    by (simp add: sample_db_def sample_row_def)
  have "deleteConversation ctx_user ''A'' sample_db =
      (Inr (length (filter (\<lambda>m. conversationId m = ''A'') sample_db)),
       filter (\<lambda>m. conversationId m \<noteq> ''A'') sample_db)"
    using deleteConversation_all_or_nothing [OF u(1) d, of "''A''"] own by blast
  moreover have "length (filter (\<lambda>m. conversationId m = ''A'') sample_db) = 3"
    by (simp add: sample_db_def sample_row_def)
  moreover have "filter (\<lambda>m. conversationId m \<noteq> ''A'') sample_db =
      [sample_row 2 300 7 User ''hello'' ''B'' (Some ''General Discussion''),
       sample_row 3 350 7 Assistant ''hi'' ''B'' (Some ''General Discussion'')]"
    by (simp add: sample_db_def sample_row_def)
  moreover have "deleteConversation (ctx_user\<lparr>currentUser := Some 8\<rparr>) ''B'' sample_db =
      (Inl NotFoundOrForbidden, sample_db)"
    using deleteConversation_all_or_nothing [OF u(2) d, of "''B''"] foreign by blast
  ultimately show ?thesis by simp
qed

subsection \<open>Regenerating a title\<close>

text \<open>
  What \<open>regenerateConversationTitle\<close> does for an authenticated caller, whatever the
  title action does: it fails with \<open>NoUserMessages\<close> exactly when the conversation has no
  message of role \<open>user\<close>; otherwise it passes the content of a user message of the
  conversation that no other user message of it precedes in creation time to
  \<open>generateConversationTitle\<close>, returns the result and writes it onto every message of
  the conversation (and, when \<open>_id\<close> is a key, onto no other message). Without a user
  it fails with \<open>Unauthenticated\<close> before it reads the conversation.
\<close>

lemma regenerate_first_user_message:
  assumes "currentUser c = Some u"
  shows "(fst (regenerateConversationTitle c cid db) = Inl NoUserMessages \<longleftrightarrow>
            \<not> (\<exists>m \<in> set db. conversationId m = cid \<and> role m = User)) \<and>
         ((\<exists>m \<in> set db. conversationId m = cid \<and> role m = User) \<longrightarrow>
            (\<exists>first \<in> set db.
               conversationId first = cid \<and> role first = User \<and>
               (\<forall>m \<in> set db. conversationId m = cid \<and> role m = User \<longrightarrow>
                   creationTime first \<le> creationTime m) \<and>
               fst (regenerateConversationTitle c cid db) =
                 Inr (generateConversationTitle c (content first)) \<and>
               length (snd (regenerateConversationTitle c cid db)) = length db \<and>
               (\<forall>m \<in> set (snd (regenerateConversationTitle c cid db)).
                   conversationId m = cid \<longrightarrow>
                   conversationTitle m = Some (generateConversationTitle c (content first))) \<and>
               (ids_distinct db \<longrightarrow>
                  snd (regenerateConversationTitle c cid db) =
                    map (\<lambda>m. if conversationId m = cid
                              then m\<lparr>conversationTitle := Some (generateConversationTitle c (content first))\<rparr>
                              else m) db)))"
proof -
  let ?users = "filter (\<lambda>m. conversationId m = cid \<and> role m = User) db"
  let ?sorted = "sort_key creationTime ?users"
  show ?thesis
  proof (cases ?sorted)
    case Nil
    then have "?users = []" by (metis length_sort length_0_conv)
    then have none: "\<not> (\<exists>m \<in> set db. conversationId m = cid \<and> role m = User)"
      by (auto simp: filter_empty_conv)
    with Nil show ?thesis
      by (simp add: regenerate_cases [OF assms])
  next
    case (Cons first rest)
    from head_least [OF Cons]
    have mem: "first \<in> set db" "conversationId first = cid" "role first = User"
      and least: "\<forall>m \<in> set db. conversationId m = cid \<and> role m = User \<longrightarrow>
                    creationTime first \<le> creationTime m"
      by auto
    let ?t = "generateConversationTitle c (content first)"
    have res: "regenerateConversationTitle c cid db =
        (Inr ?t, map (\<lambda>m. if msg_id m \<in> msg_id ` set (byConversation db cid)
                            then m\<lparr>conversationTitle := Some ?t\<rparr> else m) db)"
      using Cons by (simp add: regenerate_cases [OF assms])
    have all: "\<forall>m \<in> set (snd (regenerateConversationTitle c cid db)).
        conversationId m = cid \<longrightarrow> conversationTitle m = Some ?t"
      unfolding res by (auto simp: set_byConversation)
    have frame: "snd (regenerateConversationTitle c cid db) =
        map (\<lambda>m. if conversationId m = cid then m\<lparr>conversationTitle := Some ?t\<rparr> else m) db"
      if "ids_distinct db"
      unfolding res snd_conv
      by (rule map_cong) (simp_all add: id_in_conversation [OF that])
    have some: "\<exists>m \<in> set db. conversationId m = cid \<and> role m = User"
      using mem by blast
    have p1: "fst (regenerateConversationTitle c cid db) = Inl NoUserMessages \<longleftrightarrow>
            \<not> (\<exists>m \<in> set db. conversationId m = cid \<and> role m = User)"
      using some by (simp add: res)
    have len: "length (snd (regenerateConversationTitle c cid db)) = length db"
      by (simp add: res)
    have fstres: "fst (regenerateConversationTitle c cid db) = Inr ?t"
      by (simp add: res)
    from p1 mem least fstres len all frame show ?thesis
      by blast
  qed
qed

lemma regenerate_unauthenticated:
  "currentUser c = None \<Longrightarrow> regenerateConversationTitle c cid db = (Inl Unauthenticated, db)"
  by (simp add: regenerateConversationTitle_def)

text \<open>
  When \<open>ctx.runAction\<close> throws, the literal of the \<open>catch\<close> block is returned and written,
  whatever the first user message says.
\<close>

lemma regenerate_without_action:
  assumes "currentUser c = Some u" and "\<not> actionRuns c"
      and "\<exists>m \<in> set db. conversationId m = cid \<and> role m = User"
  shows "fst (regenerateConversationTitle c cid db) = Inr ''New Conversation'' \<and>
         (\<forall>m \<in> set (snd (regenerateConversationTitle c cid db)).
             conversationId m = cid \<longrightarrow> conversationTitle m = Some ''New Conversation'')"
proof -
  let ?sorted = "sort_key creationTime (filter (\<lambda>m. conversationId m = cid \<and> role m = User) db)"
  from assms(3) have "filter (\<lambda>m. conversationId m = cid \<and> role m = User) db \<noteq> []"
    by (auto simp: filter_empty_conv)
  then have "?sorted \<noteq> []" by (metis length_sort length_0_conv)
  then obtain first rest where "?sorted = first # rest" by (cases ?sorted) auto
  then show ?thesis
    using assms(2)
    by (auto simp: regenerate_cases [OF assms(1)] generateConversationTitle_eq set_byConversation)
qed

text \<open>
  Claim C7 fails on the code. \<open>regenerateConversationTitle\<close> is a mutation, and the
  context of a mutation offers no \<open>runAction\<close>: the call in \<open>generateConversationTitle\<close>
  throws inside the \<open>try\<close>, and the \<open>catch\<close> block returns \<open>New Conversation\<close>. In the
  sample table the first user message of conversation \<open>A\<close> is \<open>help me fix a bug\<close>, for
  which the keyword derivation gives \<open>Help Discussion\<close>; the mutation returns
  \<open>New Conversation\<close> and writes it onto the three messages of the conversation.
\<close>

theorem regenerateConversationTitle_fallback_title:
  "map content (take 1 (filter (\<lambda>m. role m = User) (byConversation sample_db ''A''))) =
     [''help me fix a bug''] \<and>
   stated_title ''help me fix a bug'' = ''Help Discussion'' \<and>
   fst (regenerateConversationTitle ctx_failing ''A'' sample_db) = Inr ''New Conversation'' \<and>
   map conversationTitle (snd (regenerateConversationTitle ctx_failing ''A'' sample_db)) =
     [Some ''New Conversation'', Some ''General Discussion'', Some ''General Discussion'',
      Some ''New Conversation'', Some ''New Conversation'']"
  by code_simp

subsection \<open>Saving a message\<close>

lemma fold_max_ge: "a \<le> fold max xs (a::nat)"
  by (induction xs arbitrary: a) (auto intro: order_trans [OF max.cobounded2])

lemma fold_max_mem: "x \<in> set xs \<Longrightarrow> x \<le> fold max xs (a::nat)"
proof (induction xs arbitrary: a)
  case Nil
  then show ?case by simp
next
  case (Cons y ys)
  show ?case
  proof (cases "x = y")
    case True
    have "y \<le> max y a" by simp
    also have "\<dots> \<le> fold max ys (max y a)" by (rule fold_max_ge)
    finally show ?thesis using True by simp
  next
    case False
    with Cons.prems have "x \<in> set ys" by simp
    then show ?thesis using Cons.IH by simp
  qed
qed

lemma fresh_id_new: "fresh_id db \<notin> msg_id ` set db"
proof
  assume "fresh_id db \<in> msg_id ` set db"
  then have "fresh_id db \<in> set (map msg_id db)" by simp
  then have "fresh_id db \<le> fold max (map msg_id db) 0" by (rule fold_max_mem)
  then show False by (simp add: fresh_id_def)
qed

lemma existingTitle_None:
  "(\<forall>m \<in> set msgs. \<not> has_title m) \<Longrightarrow> existingTitle msgs = None"
proof -
  assume "\<forall>m \<in> set msgs. \<not> has_title m"
  then have "find has_title msgs = None" by (simp add: find_None_iff)
  then show ?thesis by (simp add: existingTitle_def)
qed

lemma existingTitle_Some:
  "\<exists>m \<in> set msgs. has_title m \<Longrightarrow>
   \<exists>m \<in> set msgs. has_title m \<and> existingTitle msgs = conversationTitle m"
  by (auto simp: existingTitle_def find_None_iff find_Some_iff split: option.splits)

lemma save_cases:
  assumes "currentUser c = Some u"
  shows "saveMessage c args db =
    (Inr (fresh_id db),
     db @ [\<lparr>msg_id = fresh_id db, creationTime = insertTime c, userId = u, role = arg_role args,
            content = arg_content args, conversationId = arg_conversationId args,
            conversationTitle =
              (if arg_role args = User \<and> (\<forall>m \<in> set db. conversationId m \<noteq> arg_conversationId args)
               then Some (generateConversationTitle c (arg_content args))
               else existingTitle (byConversation db (arg_conversationId args))),
            model = arg_model args, tokensUsed = arg_tokensUsed args,
            responseTime = arg_responseTime args, metadata = arg_metadata args\<rparr>])"
proof -
  have e: "byConversation db (arg_conversationId args) = [] \<longleftrightarrow>
           (\<forall>m \<in> set db. conversationId m \<noteq> arg_conversationId args)"
    using set_byConversation [of db "arg_conversationId args"] by (auto simp: set_empty [symmetric] simp del: set_empty)
  show ?thesis
    using assms e by (auto simp: saveMessage_def db_insert_def Let_def existingTitle_None)
qed

lemma has_title_iff:
  "titles_nonempty db \<Longrightarrow> m \<in> set db \<Longrightarrow> has_title m \<longleftrightarrow> conversationTitle m \<noteq> None"
  by (auto simp: titles_nonempty_def has_title_def list_all_iff split: option.splits)

lemma gct_nonempty: "generateConversationTitle c m \<noteq> []"
  using stated_title_in [of m] titles_clean by (auto simp: generateConversationTitle_eq)

text \<open>
  Claim C5: \<open>saveMessage\<close> fails with \<open>Unauthenticated\<close>, leaving the table as it is,
  when no user is resolvable. Otherwise it appends one row with a new \<open>_id\<close>. On a
  message of role \<open>user\<close> with no prior message under the conversation id, the row's
  title is the derived one. On every other message, user or assistant, the row's title
  is the title of a prior message of the conversation that has one, and unset when no
  prior message has one. (A title counts as present when it is set and not the empty
  string; on a table without empty titles that is: when it is set, and the table stays
  without empty titles.)
\<close>

theorem saveMessage_title:
  "(currentUser c = None \<longrightarrow> saveMessage c args db = (Inl Unauthenticated, db)) \<and>
   (\<forall>u. currentUser c = Some u \<longrightarrow>
      (\<exists>row. saveMessage c args db = (Inr (msg_id row), db @ [row]) \<and>
         msg_id row \<notin> msg_id ` set db \<and>
         userId row = u \<and> role row = arg_role args \<and> content row = arg_content args \<and>
         conversationId row = arg_conversationId args \<and>
         (arg_role args = User \<and> (\<forall>m \<in> set db. conversationId m \<noteq> arg_conversationId args) \<longrightarrow>
            conversationTitle row = Some (generateConversationTitle c (arg_content args))) \<and>
         (arg_role args = Assistant \<or> (\<exists>m \<in> set db. conversationId m = arg_conversationId args) \<longrightarrow>
            ((\<exists>m \<in> set db. conversationId m = arg_conversationId args \<and> has_title m) \<longrightarrow>
               (\<exists>m \<in> set db. conversationId m = arg_conversationId args \<and> has_title m \<and>
                  conversationTitle row = conversationTitle m)) \<and>
            ((\<forall>m \<in> set db. conversationId m = arg_conversationId args \<longrightarrow> \<not> has_title m) \<longrightarrow>
               conversationTitle row = None)) \<and>
         (titles_nonempty db \<longrightarrow>
            titles_nonempty (db @ [row]) \<and>
            (\<forall>m \<in> set db. has_title m \<longleftrightarrow> conversationTitle m \<noteq> None))))"
proof -
  have anon: "saveMessage c args db = (Inl Unauthenticated, db)" if "currentUser c = None"
    using that by (simp add: saveMessage_def)
  have auth: "\<exists>row. saveMessage c args db = (Inr (msg_id row), db @ [row]) \<and>
         msg_id row \<notin> msg_id ` set db \<and>
         userId row = u \<and> role row = arg_role args \<and> content row = arg_content args \<and>
         conversationId row = arg_conversationId args \<and>
         (arg_role args = User \<and> (\<forall>m \<in> set db. conversationId m \<noteq> arg_conversationId args) \<longrightarrow>
            conversationTitle row = Some (generateConversationTitle c (arg_content args))) \<and>
         (arg_role args = Assistant \<or> (\<exists>m \<in> set db. conversationId m = arg_conversationId args) \<longrightarrow>
            ((\<exists>m \<in> set db. conversationId m = arg_conversationId args \<and> has_title m) \<longrightarrow>
               (\<exists>m \<in> set db. conversationId m = arg_conversationId args \<and> has_title m \<and>
                  conversationTitle row = conversationTitle m)) \<and>
            ((\<forall>m \<in> set db. conversationId m = arg_conversationId args \<longrightarrow> \<not> has_title m) \<longrightarrow>
               conversationTitle row = None)) \<and>
         (titles_nonempty db \<longrightarrow>
            titles_nonempty (db @ [row]) \<and>
            (\<forall>m \<in> set db. has_title m \<longleftrightarrow> conversationTitle m \<noteq> None))"
    if u: "currentUser c = Some u" for u
  proof -
    let ?cid = "arg_conversationId args"
    let ?first = "arg_role args = User \<and> (\<forall>m \<in> set db. conversationId m \<noteq> ?cid)"
    let ?title = "if ?first then Some (generateConversationTitle c (arg_content args))
                  else existingTitle (byConversation db ?cid)"
    define row where "row =
        \<lparr>msg_id = fresh_id db, creationTime = insertTime c, userId = u, role = arg_role args,
         content = arg_content args, conversationId = ?cid, conversationTitle = ?title,
         model = arg_model args, tokensUsed = arg_tokensUsed args,
         responseTime = arg_responseTime args, metadata = arg_metadata args\<rparr>"
    have res: "saveMessage c args db = (Inr (msg_id row), db @ [row])"
      unfolding row_def by (simp add: save_cases [OF u])
    have fields: "msg_id row \<notin> msg_id ` set db" "userId row = u" "role row = arg_role args"
      "content row = arg_content args" "conversationId row = ?cid"
      using fresh_id_new [of db] by (simp_all add: row_def)
    have t: "conversationTitle row = ?title" by (simp add: row_def)
    have firstcase: "conversationTitle row = Some (generateConversationTitle c (arg_content args))"
      if ?first
      using that t by simp
    have later: "arg_role args = Assistant \<or> (\<exists>m \<in> set db. conversationId m = ?cid) \<Longrightarrow> \<not> ?first"
      by auto
    have copy: "\<exists>m \<in> set db. conversationId m = ?cid \<and> has_title m \<and>
                  conversationTitle row = conversationTitle m"
      if "\<not> ?first" and "\<exists>m \<in> set db. conversationId m = ?cid \<and> has_title m"
    proof -
      from that(2) have "\<exists>m \<in> set (byConversation db ?cid). has_title m"
        by (auto simp: set_byConversation)
      from existingTitle_Some [OF this] that(1) t show ?thesis
        by (auto simp: set_byConversation)
    qed
    have unset: "conversationTitle row = None"
      if "\<not> ?first" and "\<forall>m \<in> set db. conversationId m = ?cid \<longrightarrow> \<not> has_title m"
    proof -
      from that(2) have "\<forall>m \<in> set (byConversation db ?cid). \<not> has_title m"
        by (auto simp: set_byConversation)
      from existingTitle_None [OF this] that(1) t show ?thesis by simp
    qed
    have inv: "titles_nonempty (db @ [row])" if ne: "titles_nonempty db"
    proof -
      have "conversationTitle row \<noteq> Some []"
      proof (cases ?first)
        case True
        then show ?thesis using t gct_nonempty by simp
      next
        case False
        show ?thesis
        proof (cases "\<exists>m \<in> set db. conversationId m = ?cid \<and> has_title m")
          case True
          from copy [OF False True] show ?thesis
            by (auto simp: has_title_def split: option.splits)
        next
          case False2: False
          with unset [OF False] show ?thesis by auto
        qed
      qed
      with ne show ?thesis by (simp add: titles_nonempty_def)
    qed
    have iff: "\<forall>m \<in> set db. has_title m \<longleftrightarrow> conversationTitle m \<noteq> None" if "titles_nonempty db"
      using has_title_iff [OF that] by blast
    from res fields firstcase later copy unset inv iff show ?thesis
      by (intro exI [of _ row]) blast
  qed
  from anon auth show ?thesis by blast
qed

theorem saveMessage_title_witness:
  "saveMessage ctx_anonymous sample_save sample_db = (Inl Unauthenticated, sample_db) \<and>
   map conversationTitle (snd (saveMessage ctx_user sample_save sample_db)) =
     map conversationTitle sample_db @ [Some ''Help Discussion''] \<and>
   map conversationTitle (snd (saveMessage ctx_user sample_reply sample_db)) =
     map conversationTitle sample_db @ [Some ''General Discussion'']"
proof -
  have u: "currentUser ctx_user = Some 7" "currentUser ctx_anonymous = None"
    by (simp_all add: ctx_user_def ctx_anonymous_def)
  have r1: "saveMessage ctx_anonymous sample_save sample_db = (Inl Unauthenticated, sample_db)"
    using saveMessage_title [of ctx_anonymous sample_save sample_db] u(2) by blast
  have fresh: "arg_role sample_save = User \<and>
      (\<forall>m \<in> set sample_db. conversationId m \<noteq> arg_conversationId sample_save)"
    by (simp add: sample_save_def sample_db_def sample_row_def)
  from saveMessage_title [of ctx_user sample_save sample_db] u(1) fresh
  obtain row where row: "saveMessage ctx_user sample_save sample_db = (Inr (msg_id row), sample_db @ [row])"
    "conversationTitle row = Some (generateConversationTitle ctx_user (arg_content sample_save))"
    by blast
  have "generateConversationTitle ctx_user (arg_content sample_save) = stated_title ''how can you help''"
    by (simp add: generateConversationTitle_eq ctx_user_def sample_save_def)
  also have "\<dots> = ''Help Discussion''" by code_simp
  finally have r2: "map conversationTitle (snd (saveMessage ctx_user sample_save sample_db)) =
     map conversationTitle sample_db @ [Some ''Help Discussion'']"
    using row by simp
  have later: "arg_role sample_reply = Assistant"
    and titled: "\<exists>m \<in> set sample_db. conversationId m = arg_conversationId sample_reply \<and> has_title m"
    by (simp_all add: sample_reply_def sample_db_def sample_row_def has_title_def)
  from saveMessage_title [of ctx_user sample_reply sample_db] u(1) later titled
  obtain row' m where row': "saveMessage ctx_user sample_reply sample_db = (Inr (msg_id row'), sample_db @ [row'])"
    "m \<in> set sample_db" "conversationId m = arg_conversationId sample_reply"
    "conversationTitle row' = conversationTitle m"
    by blast
  from row'(2,3) have "conversationTitle m = Some ''General Discussion''"
    by (auto simp: sample_reply_def sample_db_def sample_row_def)
  with row' have r3: "map conversationTitle (snd (saveMessage ctx_user sample_reply sample_db)) =
     map conversationTitle sample_db @ [Some ''General Discussion'']"
    by simp
  from r1 r2 r3 show ?thesis by blast
qed

subsection \<open>The table's invariants\<close>

text \<open>
  The empty table has a key \<open>_id\<close> and no empty title, and \<open>saveMessage\<close>,
  \<open>deleteConversation\<close> and \<open>regenerateConversationTitle\<close> keep both properties.
\<close>

lemma invariants_empty: "ids_distinct [] \<and> titles_nonempty []"
  by (simp add: ids_distinct_def titles_nonempty_def)

lemma saveMessage_invariants:
  assumes "ids_distinct db" and "titles_nonempty db"
  shows "ids_distinct (snd (saveMessage c args db)) \<and> titles_nonempty (snd (saveMessage c args db))"
proof (cases "currentUser c")
  case None
  with assms show ?thesis by (simp add: saveMessage_def)
next
  case (Some u)
  let ?cid = "arg_conversationId args"
  have t: "existingTitle (byConversation db ?cid) \<noteq> Some []"
  proof (cases "\<exists>m \<in> set (byConversation db ?cid). has_title m")
    case True
    from existingTitle_Some [OF this] show ?thesis
      by (auto simp: has_title_def split: option.splits)
  next
    case False
    then have "existingTitle (byConversation db ?cid) = None"
      by (intro existingTitle_None) blast
    then show ?thesis by simp
  qed
  show ?thesis
    using assms t fresh_id_new [of db] gct_nonempty [of c "arg_content args"]
    by (simp add: save_cases [OF Some] ids_distinct_def titles_nonempty_def)
qed

lemma deleteConversation_invariants:
  assumes "ids_distinct db" and "titles_nonempty db"
  shows "ids_distinct (snd (deleteConversation c cid db)) \<and>
         titles_nonempty (snd (deleteConversation c cid db))"
  using assms
  by (auto simp: deleteConversation_def Let_def foldl_delete ids_distinct_def titles_nonempty_def
      distinct_map_filter list_all_iff split: option.splits)

lemma regenerateConversationTitle_invariants:
  assumes "ids_distinct db" and "titles_nonempty db"
  shows "ids_distinct (snd (regenerateConversationTitle c cid db)) \<and>
         titles_nonempty (snd (regenerateConversationTitle c cid db))"
proof -
  have ids: "(msg_id \<circ> (\<lambda>m. if msg_id m \<in> A then m\<lparr>conversationTitle := Some t\<rparr> else m)) = msg_id"
    for A t
    by (rule ext) simp
  show ?thesis
    using assms gct_nonempty [of c]
    by (auto simp: regenerateConversationTitle_def Let_def foldl_patch ids ids_distinct_def
        titles_nonempty_def list_all_iff split: option.splits list.splits)
qed

subsection \<open>Listing the conversations of a user\<close>

lemma find_append:
  "find P (xs @ ys) = (case find P xs of Some x \<Rightarrow> Some x | None \<Rightarrow> find P ys)"
  by (induction xs) auto

lemma addMessage_keys:
  "map s_conversationId (addMessage G m) =
   (if conversationId m \<in> set (map s_conversationId G) then map s_conversationId G
    else map s_conversationId G @ [conversationId m])"
  by (auto simp: addMessage_def Let_def comp_def intro!: map_cong)

lemma addMessage_mem:
  assumes "s' \<in> set (addMessage G m)"
  shows "(\<exists>s \<in> set G. s_conversationId s' = s_conversationId s \<and> lastMessage s' = lastMessage s \<and>
            createdAt s' = createdAt s \<and>
            messageCount s' = messageCount s + (if s_conversationId s = conversationId m then 1 else 0)) \<or>
         (conversationId m \<notin> set (map s_conversationId G) \<and> s_conversationId s' = conversationId m \<and>
            lastMessage s' = m \<and> createdAt s' = creationTime m \<and> messageCount s' = 1)"
  using assms by (auto simp: addMessage_def Let_def split: if_splits)

lemma group_invariant:
  "distinct (map s_conversationId (foldl addMessage [] ms)) \<and>
   set (map s_conversationId (foldl addMessage [] ms)) = conversationId ` set ms \<and>
   (\<forall>s \<in> set (foldl addMessage [] ms).
      find (\<lambda>m. conversationId m = s_conversationId s) ms = Some (lastMessage s) \<and>
      createdAt s = creationTime (lastMessage s) \<and>
      messageCount s = length (filter (\<lambda>m. conversationId m = s_conversationId s) ms))"
proof (induction ms rule: rev_induct)
  case Nil
  then show ?case by simp
next
  case (snoc m ms)
  let ?G = "foldl addMessage [] ms"
  from snoc.IH have d: "distinct (map s_conversationId ?G)"
    and k: "set (map s_conversationId ?G) = conversationId ` set ms"
    and e: "\<forall>s \<in> set ?G.
      find (\<lambda>m. conversationId m = s_conversationId s) ms = Some (lastMessage s) \<and>
      createdAt s = creationTime (lastMessage s) \<and>
      messageCount s = length (filter (\<lambda>m. conversationId m = s_conversationId s) ms)"
    by blast+
  have step: "foldl addMessage [] (ms @ [m]) = addMessage ?G m" by simp
  have d': "distinct (map s_conversationId (addMessage ?G m))"
    using d by (simp add: addMessage_keys)
  have k': "set (map s_conversationId (addMessage ?G m)) = conversationId ` set (ms @ [m])"
    using k by (auto simp: addMessage_keys)
  have e': "find (\<lambda>x. conversationId x = s_conversationId s') (ms @ [m]) = Some (lastMessage s') \<and>
      createdAt s' = creationTime (lastMessage s') \<and>
      messageCount s' = length (filter (\<lambda>x. conversationId x = s_conversationId s') (ms @ [m]))"
    if "s' \<in> set (addMessage ?G m)" for s'
    using addMessage_mem [OF that]
  proof
    assume "\<exists>s \<in> set ?G. s_conversationId s' = s_conversationId s \<and> lastMessage s' = lastMessage s \<and>
            createdAt s' = createdAt s \<and>
            messageCount s' = messageCount s + (if s_conversationId s = conversationId m then 1 else 0)"
    then obtain s where s: "s \<in> set ?G" "s_conversationId s' = s_conversationId s"
      "lastMessage s' = lastMessage s" "createdAt s' = createdAt s"
      "messageCount s' = messageCount s + (if s_conversationId s = conversationId m then 1 else 0)"
      by blast
    from e s(1) have es: "find (\<lambda>m. conversationId m = s_conversationId s) ms = Some (lastMessage s)"
      "createdAt s = creationTime (lastMessage s)"
      "messageCount s = length (filter (\<lambda>m. conversationId m = s_conversationId s) ms)"
      by blast+
    show ?thesis
      using s(2-5) es by (auto simp: find_append)
  next
    assume new: "conversationId m \<notin> set (map s_conversationId ?G) \<and> s_conversationId s' = conversationId m \<and>
            lastMessage s' = m \<and> createdAt s' = creationTime m \<and> messageCount s' = 1"
    then have notin: "conversationId m \<notin> conversationId ` set ms" using k by simp
    have none: "\<forall>x \<in> set ms. conversationId x \<noteq> conversationId m"
    proof (intro ballI notI)
      fix x assume "x \<in> set ms" "conversationId x = conversationId m"
      then have "conversationId m \<in> conversationId ` set ms" by (metis imageI)
      with notin show False by contradiction
    qed
    then have "find (\<lambda>x. conversationId x = conversationId m) ms = None"
      by (simp add: find_None_iff)
    moreover from none have "filter (\<lambda>x. conversationId x = conversationId m) ms = []"
      by (simp add: filter_empty_conv)
    ultimately show ?thesis
      using new by (simp add: find_append)
  qed
  from d' k' e' show ?case
    unfolding step by blast
qed

lemma find_newest:
  "sorted (map f xs) \<Longrightarrow> find P (rev xs) = Some x \<Longrightarrow>
   x \<in> set xs \<and> P x \<and> (\<forall>y \<in> set xs. P y \<longrightarrow> f y \<le> f x)"
proof (induction xs rule: rev_induct)
  case Nil
  then show ?case by simp
next
  case (snoc a xs)
  from snoc.prems(1) have srt: "sorted (map f xs)" and le: "\<forall>y \<in> set xs. f y \<le> f a"
    by (auto simp: sorted_append)
  show ?case
  proof (cases "P a")
    case True
    with snoc.prems(2) have "x = a" by simp
    with True le show ?thesis by auto
  next
    case False
    with snoc.prems(2) have "find P (rev xs) = Some x" by simp
    from snoc.IH [OF srt this] False show ?thesis by auto
  qed
qed

lemma count_newest_first:
  "length (filter (\<lambda>m. conversationId m = k) (rev (byUser db u))) =
   length (filter (\<lambda>m. userId m = u \<and> conversationId m = k) db)"
proof -
  have "length (filter (\<lambda>m. conversationId m = k) (rev (byUser db u))) =
        length (filter (\<lambda>m. conversationId m = k) (byUser db u))"
    by (simp add: rev_filter [symmetric])
  also have "\<dots> = length (filter (\<lambda>m. conversationId m = k) (filter (\<lambda>m. userId m = u) db))"
    by (simp add: byUser_def filter_sort)
  also have "\<dots> = length (filter (\<lambda>m. userId m = u \<and> conversationId m = k) db)"
    by (simp add: conj_commute)
  finally show ?thesis .
qed

lemma sample_listing:
  "getUserConversations ctx_user sample_db =
     [\<lparr>s_conversationId = ''A'',
       lastMessage = sample_row 5 500 7 Assistant ''done'' ''A'' (Some ''New Conversation''),
       messageCount = 2, createdAt = 500\<rparr>,
      \<lparr>s_conversationId = ''B'',
       lastMessage = sample_row 3 350 7 Assistant ''hi'' ''B'' (Some ''General Discussion''),
       messageCount = 2, createdAt = 350\<rparr>]"
  by code_simp

text \<open>
  Claim C9: for an authenticated caller, \<open>getUserConversations\<close> returns one summary
  per distinct conversation id among the caller's messages, in descending order of
  \<open>createdAt\<close>: when the last message of one conversation is newer than the last message
  of another, the first stands before the second, whatever their first messages. In
  each summary \<open>lastMessage\<close> is a message of the caller under that id that none of the
  caller's messages under that id is newer than, \<open>messageCount\<close> is the number of the
  caller's messages under that id, and \<open>createdAt\<close> is the creation time of
  \<open>lastMessage\<close>.
\<close>

theorem getUserConversations_summaries:
  assumes "currentUser c = Some u"
  shows "distinct (map s_conversationId (getUserConversations c db)) \<and>
    set (map s_conversationId (getUserConversations c db)) =
      conversationId ` {m \<in> set db. userId m = u} \<and>
    (\<forall>i j. i < j \<and> j < length (getUserConversations c db) \<longrightarrow>
       createdAt (getUserConversations c db ! j) \<le> createdAt (getUserConversations c db ! i)) \<and>
    (\<forall>i j. i < length (getUserConversations c db) \<and> j < length (getUserConversations c db) \<and>
       creationTime (lastMessage (getUserConversations c db ! j)) <
         creationTime (lastMessage (getUserConversations c db ! i)) \<longrightarrow> i < j) \<and>
    (\<forall>s \<in> set (getUserConversations c db).
       lastMessage s \<in> set db \<and> userId (lastMessage s) = u \<and>
       conversationId (lastMessage s) = s_conversationId s \<and>
       (\<forall>m \<in> set db. userId m = u \<and> conversationId m = s_conversationId s \<longrightarrow>
          creationTime m \<le> creationTime (lastMessage s)) \<and>
       messageCount s = length (filter (\<lambda>m. userId m = u \<and> conversationId m = s_conversationId s) db) \<and>
       createdAt s = creationTime (lastMessage s))"
proof -
  let ?ms = "rev (byUser db u)"
  let ?G = "foldl addMessage [] ?ms"
  let ?R = "getUserConversations c db"
  have R: "?R = sort_key (\<lambda>v. - createdAt v) ?G"
    using assms by (simp add: getUserConversations_def sortByCreatedAtDesc_def)
  have setR: "set ?R = set ?G" by (simp add: R)
  have setms: "set ?ms = {m \<in> set db. userId m = u}"
    by (auto simp: byUser_def)
  note inv = group_invariant [of ?ms]
  from inv have dG: "distinct (map s_conversationId ?G)" by blast
  have d: "distinct (map s_conversationId ?R)"
    using dG unfolding R by (simp add: distinct_map)
  have k: "set (map s_conversationId ?R) = conversationId ` {m \<in> set db. userId m = u}"
    using inv setms setR by simp
  have srt: "sorted (map (\<lambda>v. - createdAt v) ?R)"
    unfolding R by (rule sorted_sort_key)
  have desc: "createdAt (?R ! j) \<le> createdAt (?R ! i)" if "i < j" "j < length ?R" for i j
  proof -
    from that have "map (\<lambda>v. - createdAt v) ?R ! i \<le> map (\<lambda>v. - createdAt v) ?R ! j"
      by (intro sorted_nth_mono [OF srt]) simp_all
    with that show ?thesis by simp
  qed
  have each: "lastMessage s \<in> set db \<and> userId (lastMessage s) = u \<and>
       conversationId (lastMessage s) = s_conversationId s \<and>
       (\<forall>m \<in> set db. userId m = u \<and> conversationId m = s_conversationId s \<longrightarrow>
          creationTime m \<le> creationTime (lastMessage s)) \<and>
       messageCount s = length (filter (\<lambda>m. userId m = u \<and> conversationId m = s_conversationId s) db) \<and>
       createdAt s = creationTime (lastMessage s)"
    if "s \<in> set ?R" for s
  proof -
    from that setR have sG: "s \<in> set ?G" by simp
    with inv have f: "find (\<lambda>m. conversationId m = s_conversationId s) ?ms = Some (lastMessage s)"
      and ca: "createdAt s = creationTime (lastMessage s)"
      and cnt: "messageCount s = length (filter (\<lambda>m. conversationId m = s_conversationId s) ?ms)"
      by blast+
    have "sorted (map creationTime (byUser db u))"
      unfolding byUser_def by (rule sorted_sort_key)
    from find_newest [OF this f]
    have "lastMessage s \<in> set (byUser db u)" "conversationId (lastMessage s) = s_conversationId s"
      "\<forall>y \<in> set (byUser db u). conversationId y = s_conversationId s \<longrightarrow>
          creationTime y \<le> creationTime (lastMessage s)"
      by blast+
    moreover have "messageCount s =
        length (filter (\<lambda>m. userId m = u \<and> conversationId m = s_conversationId s) db)"
      using cnt by (simp only: count_newest_first)
    ultimately show ?thesis
      using ca by (auto simp: byUser_def)
  qed
  have prec: "i < j"
    if "i < length ?R" "j < length ?R"
       "creationTime (lastMessage (?R ! j)) < creationTime (lastMessage (?R ! i))" for i j
  proof (rule ccontr)
    assume "\<not> i < j"
    then have "j \<le> i" by simp
    from that(1,2) each have ci: "createdAt (?R ! i) = creationTime (lastMessage (?R ! i))"
      and cj: "createdAt (?R ! j) = creationTime (lastMessage (?R ! j))"
      by (metis nth_mem)+
    show False
    proof (cases "j = i")
      case True
      with that(3) show False by simp
    next
      case False
      with \<open>j \<le> i\<close> have "j < i" by simp
      from desc [OF this that(1)] ci cj that(3) show False by simp
    qed
  qed
  from d k desc prec each show ?thesis by blast
qed

theorem getUserConversations_summaries_witness:
  "distinct (map s_conversationId (getUserConversations ctx_user sample_db)) \<and>
   set (map s_conversationId (getUserConversations ctx_user sample_db)) = {''A'', ''B''} \<and>
   map s_conversationId (getUserConversations ctx_user sample_db) = [''A'', ''B''] \<and>
   map createdAt (getUserConversations ctx_user sample_db) = [500, 350] \<and>
   map messageCount (getUserConversations ctx_user sample_db) = [2, 2]"
proof -
  have u: "currentUser ctx_user = Some 7" by (simp add: ctx_user_def)
  have "conversationId ` {m \<in> set sample_db. userId m = 7} =
        set (map conversationId (filter (\<lambda>m. userId m = 7) sample_db))"
    by auto
  also have "\<dots> = {''A'', ''B''}"
    by (auto simp: sample_db_def sample_row_def)
  finally have ks: "conversationId ` {m \<in> set sample_db. userId m = 7} = {''A'', ''B''}" .
  from getUserConversations_summaries [OF u, of sample_db]
  have "distinct (map s_conversationId (getUserConversations ctx_user sample_db))"
    and "set (map s_conversationId (getUserConversations ctx_user sample_db)) =
           conversationId ` {m \<in> set sample_db. userId m = 7}"
    by blast+
  with ks show ?thesis by (simp add: sample_listing)
qed

end
